theory Spec2Isabelle
  imports Main "HOL-Library.Word"
begin

unbundle bit_operations_syntax

section \<open>Constants and address arithmetic\<close>

text \<open>
  The kernel is 32-bit x86: \<open>uint32_t\<close>, \<open>pte_t\<close>, \<open>pde_t\<close>, \<open>size_t\<close> and
  \<open>uintptr_t\<close> are all 32-bit words, and \<open>+\<close> on them wraps.
  The headers \<open>inc/mmu.h\<close>, \<open>inc/vm.h\<close>, \<open>inc/syscall.h\<close>, \<open>inc/trap.h\<close>,
  \<open>inc/types.h\<close> and \<open>kern/mem.h\<close> are not among the sources, so the constants and
  macros that \<open>kern/pmap.c\<close> and \<open>kern/syscall.c\<close> take from them are given here.
\<close>

type_synonym u32 = "32 word"

text \<open>Modelled from the spec: \<open>PAGESIZE\<close> of \<open>inc/mmu.h\<close>, the frame size P = 4096 bytes.\<close>
definition PAGESIZE :: u32 where
  "PAGESIZE = 0x1000"

text \<open>Modelled from the spec: \<open>PTSIZE\<close> of \<open>inc/mmu.h\<close>, the 4 MiB mapped by one page table.\<close>
definition PTSIZE :: u32 where
  "PTSIZE = 0x400000"

text \<open>Modelled from the spec: \<open>NPTENTRIES\<close> of \<open>inc/mmu.h\<close>, 1024 entries per table.\<close>
definition NPTENTRIES :: nat where
  "NPTENTRIES = 1024"

text \<open>Modelled from the spec: the hardware permission flags of \<open>inc/mmu.h\<close>
  (P present, W writable, U user, A accessed, PS large page, G global), at their x86 bit
  positions.\<close>
definition PTE_P :: u32 where
  "PTE_P = 0x001"

definition PTE_W :: u32 where
  "PTE_W = 0x002"

definition PTE_U :: u32 where
  "PTE_U = 0x004"

definition PTE_A :: u32 where
  "PTE_A = 0x020"

definition PTE_PS :: u32 where
  "PTE_PS = 0x080"

definition PTE_G :: u32 where
  "PTE_G = 0x100"

text \<open>Modelled from the spec: the nominal permission flags of \<open>inc/syscall.h\<close>, kept in
  the low bits of a PTE that the hardware ignores (bits 9 and 10).\<close>
definition SYS_READ :: u32 where
  "SYS_READ = 0x200"

definition SYS_WRITE :: u32 where
  "SYS_WRITE = 0x400"

definition SYS_RW :: u32 where
  "SYS_RW = 0x600"

text \<open>Modelled from the spec: the user window \<open>[VM_USERLO, VM_USERHI)\<close> of \<open>inc/vm.h\<close>;
  both bounds are multiples of \<open>PTSIZE\<close> (\<open>pmap_init\<close> and \<open>pmap_check\<close> rely on it).\<close>
definition VM_USERLO :: u32 where
  "VM_USERLO = 0x40000000"

definition VM_USERHI :: u32 where
  "VM_USERHI = 0xF0000000"

text \<open>Modelled from the spec: \<open>PTE_ZERO\<close> of \<open>kern/pmap.h\<close>, the address of the shared zero
  frame \<open>pmap_zero\<close> with \<open>P = 0\<close>. The frame is a page-aligned static array of the kernel
  image; the linker fixes its address, here a page above the kernel text at 1 MiB.\<close>
definition PTE_ZERO :: u32 where
  "PTE_ZERO = 0x00120000"

text \<open>Modelled from the spec: trap vector 14 of \<open>inc/trap.h\<close>, the x86 page fault.\<close>
definition T_PGFLT :: u32 where
  "T_PGFLT = 14"

text \<open>Modelled from the spec: the address macros of \<open>inc/mmu.h\<close>. The top 10 bits of a
  linear address select the PDE, the middle 10 bits the PTE, the low 12 bits are the offset.\<close>
definition PGADDR :: "u32 \<Rightarrow> u32" where
  "PGADDR la = la AND NOT 0xFFF"

definition PGOFF :: "u32 \<Rightarrow> u32" where
  "PGOFF la = la AND 0xFFF"

definition PTOFF :: "u32 \<Rightarrow> u32" where
  "PTOFF la = la AND 0x3FFFFF"

definition PDX :: "u32 \<Rightarrow> nat" where
  "PDX la = unat (drop_bit 22 la AND 0x3FF)"

definition PTX :: "u32 \<Rightarrow> nat" where
  "PTX la = unat (drop_bit 12 la AND 0x3FF)"

text \<open>Modelled from the spec: the rounding macros of \<open>inc/types.h\<close>, computed in
  \<open>uint32_t\<close>: \<open>a - a % n\<close>, and the same applied to \<open>a + n - 1\<close>.\<close>
definition ROUNDDOWN :: "u32 \<Rightarrow> u32 \<Rightarrow> u32" where
  "ROUNDDOWN a n = a - a mod n"

definition ROUNDUP :: "u32 \<Rightarrow> u32 \<Rightarrow> u32" where
  "ROUNDUP a n = ROUNDDOWN (a + n - 1) n"


section \<open>Kernel state\<close>

text \<open>
  The kernel runs identity-mapped, so a kernel pointer to a page is the page's physical
  address. Physical memory is read and written page by page: \<open>mem s a i\<close> is the 32-bit
  word number \<open>i\<close> of the page at the page-aligned address \<open>a\<close> (a page directory, a page
  table or a data page). A \<open>pageinfo *\<close> is identified with the address of the page it
  describes, \<open>refcount s a\<close> is its \<open>refcount\<close> field, and \<open>freelist s\<close> is
  \<open>mem_freelist\<close>. \<open>conslog s\<close> collects what \<open>cprintf\<close> prints, oldest first.
  \<open>nalloc s\<close> counts the frames handed out by \<open>mem_alloc\<close>; no code reads it.
\<close>

datatype msg =
    PagefaultOutside
  | PagefaultNoPte
  | PagefaultBadPerm u32 u32
  | MergeConflict u32 u32 u32

record kstate =
  mem :: "u32 \<Rightarrow> nat \<Rightarrow> u32"
  refcount :: "u32 \<Rightarrow> int"
  freelist :: "u32 list"
  conslog :: "msg list"
  nalloc :: nat

text \<open>What stops a kernel function other than returning: dereferencing \<open>NULL\<close>, a failed
  \<open>assert\<close> (a panic), and a loop that never ends.\<close>
datatype error = NullDeref | AssertFail | Diverges

text \<open>A \<open>pte_t *\<close> into a table: the page and the index; \<open>NULL\<close> is \<open>None\<close>.\<close>
type_synonym pteptr = "u32 \<times> nat"

definition peek :: "kstate \<Rightarrow> pteptr \<Rightarrow> u32" where
  "peek s p = mem s (fst p) (snd p)"

definition poke :: "kstate \<Rightarrow> pteptr \<Rightarrow> u32 \<Rightarrow> kstate" where
  "poke s p v = s\<lparr>mem := (mem s)(fst p := (mem s (fst p))(snd p := v))\<rparr>"

text \<open>\<open>memmove(dst, src, PAGESIZE)\<close> between two pages.\<close>
definition copy_page :: "kstate \<Rightarrow> u32 \<Rightarrow> u32 \<Rightarrow> kstate" where
  "copy_page s dst src = s\<lparr>mem := (mem s)(dst := mem s src)\<rparr>"


section \<open>The frame allocator\<close>

text \<open>Modelled from the spec: \<open>mem_phys2pi\<close>, \<open>mem_pi2phys\<close> and \<open>mem_pi2ptr\<close> of
  \<open>kern/mem.h\<close> convert between a physical address, the \<open>pageinfo\<close> of its frame and a
  kernel pointer to the frame.\<close>
definition mem_phys2pi :: "u32 \<Rightarrow> u32" where
  "mem_phys2pi phys = PGADDR phys"

definition mem_pi2phys :: "u32 \<Rightarrow> u32" where
  "mem_pi2phys pi = pi"

definition mem_pi2ptr :: "u32 \<Rightarrow> u32" where
  "mem_pi2ptr pi = pi"

text \<open>Modelled from the spec: \<open>mem_alloc\<close> of \<open>kern/mem.c\<close> takes the first frame of the
  free list, or returns \<open>NULL\<close> when there is none.\<close>
definition mem_alloc :: "kstate \<Rightarrow> u32 option \<times> kstate" where
  "mem_alloc s =
     (case freelist s of
        [] \<Rightarrow> (None, s)
      | pi # rest \<Rightarrow> (Some pi, s\<lparr>freelist := rest, nalloc := Suc (nalloc s)\<rparr>))"

text \<open>Modelled from the spec: \<open>mem_free\<close> of \<open>kern/mem.c\<close> puts a frame back at the head of
  the free list.\<close>
definition mem_free :: "kstate \<Rightarrow> u32 \<Rightarrow> kstate" where
  "mem_free s pi = s\<lparr>freelist := pi # freelist s\<rparr>"

text \<open>Modelled from the spec: \<open>mem_incref\<close> of \<open>kern/mem.h\<close> adds one to the refcount.\<close>
definition mem_incref :: "kstate \<Rightarrow> u32 \<Rightarrow> kstate" where
  "mem_incref s pi = s\<lparr>refcount := (refcount s)(pi := refcount s pi + 1)\<rparr>"

text \<open>Modelled from the spec: \<open>mem_decref\<close> of \<open>kern/mem.h\<close> subtracts one from the refcount
  and calls the given free function when it has reached zero.\<close>
definition mem_decref :: "kstate \<Rightarrow> u32 \<Rightarrow> (kstate \<Rightarrow> u32 \<Rightarrow> kstate) \<Rightarrow> kstate" where
  "mem_decref s pi freefun =
     (let s' = s\<lparr>refcount := (refcount s)(pi := refcount s pi - 1)\<rparr>
      in if refcount s' pi = 0 then freefun s' pi else s')"


section \<open>Page tables: \<open>kern/pmap.c\<close>\<close>

text \<open>\<open>pmap_inval\<close> only executes \<open>invlpg\<close> or reloads \<open>CR3\<close>: it changes the TLB and
  nothing of the state above, so the calls to it are left out.\<close>

text \<open>\<open>pmap_freeptab\<close>: drop one reference for every entry of the table whose frame is not
  the zero frame, then free the table's own frame.\<close>
definition freeptab_entry :: "u32 \<Rightarrow> nat \<Rightarrow> kstate \<Rightarrow> kstate" where
  "freeptab_entry ptabpi i s =
     (let pgaddr = PGADDR (mem s (mem_pi2ptr ptabpi) i)
      in if pgaddr \<noteq> PTE_ZERO then mem_decref s (mem_phys2pi pgaddr) mem_free else s)"

definition pmap_freeptab :: "kstate \<Rightarrow> u32 \<Rightarrow> kstate" where
  "pmap_freeptab s ptabpi = mem_free (fold (freeptab_entry ptabpi) [0..<NPTENTRIES] s) ptabpi"

text \<open>The loop of \<open>pmap_walk\<close> that clears a new page table, entry by entry.\<close>
definition ptable_clear :: "kstate \<Rightarrow> u32 \<Rightarrow> kstate" where
  "ptable_clear s ptable = fold (\<lambda>i t. poke t (ptable, i) PTE_ZERO) [0..<1024] s"

definition pmap_walk :: "kstate \<Rightarrow> u32 \<Rightarrow> u32 \<Rightarrow> bool \<Rightarrow> error + (pteptr option \<times> kstate)" where
  "pmap_walk s pdir va writing =
     (if \<not> (va \<ge> VM_USERLO \<and> va < VM_USERHI) then Inl AssertFail
      else let pdentry = (pdir, PDX va) in
        if peek s pdentry = PTE_ZERO then
          (if writing then
             (case mem_alloc s of
                (None, s1) \<Rightarrow> Inr (None, s1)
              | (Some pi, s1) \<Rightarrow>
                  let s2 = mem_incref s1 pi;
                      ptable = mem_pi2ptr pi;
                      s3 = ptable_clear s2 ptable;
                      s4 = poke s3 pdentry (mem_pi2phys pi OR PTE_A OR PTE_P OR PTE_W OR PTE_U)
                  in if \<not> (peek s4 pdentry \<noteq> PTE_ZERO) then Inl AssertFail
                     else Inr (Some (ptable, PTX va), s4))
           else Inr (None, s))
        else
          let ptable = PGADDR (peek s pdentry)
          in Inr (Some (ptable, PTX va), s))"


text \<open>\<open>pmap_remove\<close>. The bodies of its first and last loop are the same statements;
  \<open>remove_pte\<close> is that body. The walker is called in create mode, and its result is
  dereferenced without a test.\<close>
definition remove_pte :: "kstate \<Rightarrow> u32 \<Rightarrow> u32 \<Rightarrow> error + kstate" where
  "remove_pte s pdir va =
     (let pdentry = (pdir, PDX va) in
      if peek s pdentry \<noteq> PTE_ZERO then
        (case pmap_walk s pdir va True of
           Inl e \<Rightarrow> Inl e
         | Inr (None, s1) \<Rightarrow> Inl NullDeref
         | Inr (Some pte, s1) \<Rightarrow>
             let addr = PGADDR (peek s1 pte) in
             if addr \<noteq> PTE_ZERO
             then Inr (poke (mem_decref s1 (mem_phys2pi addr) mem_free) pte PTE_ZERO)
             else Inr s1)
      else Inr s)"

text \<open>The body of the middle loop: a whole page table is released through its PDE.\<close>
definition remove_ptab :: "kstate \<Rightarrow> u32 \<Rightarrow> u32 \<Rightarrow> kstate" where
  "remove_ptab s pdir va =
     (let pdentry = (pdir, PDX va) in
      if peek s pdentry \<noteq> PTE_ZERO then
        (let addr = PGADDR (peek s pdentry)
         in poke (mem_decref s (mem_phys2pi addr) pmap_freeptab) pdentry PTE_ZERO)
      else s)"

text \<open>The three \<open>while\<close> loops. Their conditions are on wrapping 32-bit values, so for
  some arguments they do not end; \<open>None\<close> is that case.\<close>
partial_function (option) remove_head ::
  "kstate \<Rightarrow> u32 \<Rightarrow> u32 \<Rightarrow> u32 \<Rightarrow> (error + kstate \<times> u32) option" where
  "remove_head s pdir va toppage =
     (if va < ROUNDUP va PTSIZE \<and> va < toppage then
        (case remove_pte s pdir va of
           Inl e \<Rightarrow> Some (Inl e)
         | Inr s1 \<Rightarrow> remove_head s1 pdir (va + PAGESIZE) toppage)
      else Some (Inr (s, va)))"

partial_function (option) remove_bulk ::
  "kstate \<Rightarrow> u32 \<Rightarrow> u32 \<Rightarrow> u32 \<Rightarrow> (kstate \<times> u32) option" where
  "remove_bulk s pdir va toppage =
     (if va + PTSIZE \<le> ROUNDDOWN toppage PTSIZE then
        (if toppage - va \<ge> PTSIZE
         then remove_bulk (remove_ptab s pdir va) pdir (va + PTSIZE) toppage
         else Some (s, va))
      else Some (s, va))"

partial_function (option) remove_tail ::
  "kstate \<Rightarrow> u32 \<Rightarrow> u32 \<Rightarrow> u32 \<Rightarrow> (error + kstate) option" where
  "remove_tail s pdir va toppage =
     (if va < toppage then
        (case remove_pte s pdir va of
           Inl e \<Rightarrow> Some (Inl e)
         | Inr s1 \<Rightarrow> remove_tail s1 pdir (va + PAGESIZE) toppage)
      else Some (Inr s))"

definition pmap_remove :: "kstate \<Rightarrow> u32 \<Rightarrow> u32 \<Rightarrow> u32 \<Rightarrow> error + kstate" where
  "pmap_remove s pdir va sz =
     (if \<not> (PGOFF sz = 0) then Inl AssertFail
      else if \<not> (va \<ge> VM_USERLO \<and> va < VM_USERHI) then Inl AssertFail
      else if \<not> (sz \<le> VM_USERHI - va) then Inl AssertFail
      else if \<not> (PGOFF va = 0) then Inl AssertFail
      else
        let toppage = va + sz in
        case remove_head s pdir va toppage of
          None \<Rightarrow> Inl Diverges
        | Some (Inl e) \<Rightarrow> Inl e
        | Some (Inr (s1, va1)) \<Rightarrow>
            (case remove_bulk s1 pdir va1 toppage of
               None \<Rightarrow> Inl Diverges
             | Some (s2, va2) \<Rightarrow>
                 (case remove_tail s2 pdir va2 toppage of
                    None \<Rightarrow> Inl Diverges
                  | Some r \<Rightarrow> r)))"

text \<open>\<open>pmap_insert\<close>: the reference is taken before the old mapping is removed.\<close>
definition pmap_insert ::
  "kstate \<Rightarrow> u32 \<Rightarrow> u32 \<Rightarrow> u32 \<Rightarrow> u32 \<Rightarrow> error + (pteptr option \<times> kstate)" where
  "pmap_insert s pdir pi va perm =
     (case pmap_walk s pdir va True of
        Inl e \<Rightarrow> Inl e
      | Inr (None, s1) \<Rightarrow> Inr (None, s1)
      | Inr (Some pte, s1) \<Rightarrow>
          let s2 = mem_incref s1 pi in
          (case (if peek s2 pte \<noteq> PTE_ZERO then pmap_remove s2 pdir va PAGESIZE else Inr s2) of
             Inl e \<Rightarrow> Inl e
           | Inr s3 \<Rightarrow> Inr (Some pte, poke s3 pte (mem_pi2phys pi OR perm OR PTE_P))))"

text \<open>\<open>pmap_copy\<close>. \<open>copy_entry\<close> is the body of the inner loop over the entries of a source
  table, \<open>copy_pde\<close> the body of the outer loop over the PDE pairs (\<open>False\<close>: the
  allocation failed and \<open>pmap_copy\<close> returns 0), \<open>copy_loop\<close> the outer loop.\<close>
definition copy_entry :: "u32 \<Rightarrow> nat \<Rightarrow> kstate \<Rightarrow> kstate" where
  "copy_entry ptab i s =
     (let entry = (ptab, i) in
      if PGADDR (peek s entry) = PGADDR PTE_ZERO then s
      else
        let perm = PGOFF (peek s entry) OR SYS_READ;
            perm = (if perm AND PTE_W \<noteq> 0 \<or> perm AND SYS_WRITE \<noteq> 0
                    then (perm AND NOT PTE_W) OR SYS_WRITE else perm);
            s1 = poke s entry (PGADDR (peek s entry) OR perm)
        in mem_incref s1 (mem_phys2pi (PGADDR (peek s1 entry))))"

definition copy_pde :: "kstate \<Rightarrow> pteptr \<Rightarrow> pteptr \<Rightarrow> error + (bool \<times> kstate)" where
  "copy_pde s spentry dpentry =
     (if PGADDR (peek s spentry) = PTE_ZERO then Inr (True, poke s dpentry (peek s spentry))
      else
        case mem_alloc s of
          (None, s1) \<Rightarrow> Inr (False, s1)
        | (Some pi, s1) \<Rightarrow>
            let entry = PGADDR (peek s1 spentry);
                s2 = fold (copy_entry entry) [0..<NPTENTRIES] s1;
                s3 = copy_page s2 (mem_pi2ptr pi) (PGADDR (peek s2 spentry));
                s4 = poke s3 dpentry (PGADDR (mem_pi2phys pi) OR PGOFF (peek s3 spentry))
            in if \<not> (PGADDR (peek s4 spentry) \<noteq> PGADDR (peek s4 dpentry)) then Inl AssertFail
               else Inr (True, s4\<lparr>refcount := (refcount s4)(pi := 1)\<rparr>))"

partial_function (option) copy_loop ::
  "kstate \<Rightarrow> u32 \<Rightarrow> u32 \<Rightarrow> pteptr \<Rightarrow> pteptr \<Rightarrow> (error + int \<times> kstate) option" where
  "copy_loop s sva endva spentry dpentry =
     (if sva < endva then
        (case copy_pde s spentry dpentry of
           Inl e \<Rightarrow> Some (Inl e)
         | Inr r \<Rightarrow>
             if fst r
             then copy_loop (snd r) (sva + PTSIZE) endva
                    (fst spentry, Suc (snd spentry)) (fst dpentry, Suc (snd dpentry))
             else Some (Inr (0, snd r)))
      else Some (Inr (1, s)))"

definition pmap_copy ::
  "kstate \<Rightarrow> u32 \<Rightarrow> u32 \<Rightarrow> u32 \<Rightarrow> u32 \<Rightarrow> u32 \<Rightarrow> error + int \<times> kstate" where
  "pmap_copy s spdir sva dpdir dva sz =
     (if \<not> (PTOFF sva = 0) then Inl AssertFail
      else if \<not> (PTOFF dva = 0) then Inl AssertFail
      else if \<not> (PTOFF sz = 0) then Inl AssertFail
      else if \<not> (sva \<ge> VM_USERLO \<and> sva < VM_USERHI) then Inl AssertFail
      else if \<not> (dva \<ge> VM_USERLO \<and> dva < VM_USERHI) then Inl AssertFail
      else if \<not> (sz \<le> VM_USERHI - sva) then Inl AssertFail
      else if \<not> (sz \<le> VM_USERHI - dva) then Inl AssertFail
      else
        case copy_loop s sva (sva + sz) (spdir, PDX sva) (dpdir, PDX dva) of
          None \<Rightarrow> Inl Diverges
        | Some r \<Rightarrow> r)"

text \<open>The saved registers of a trap that the code below reads or writes.\<close>
record trapframe =
  tf_trapno :: u32
  tf_err :: u32
  tf_eip :: u32

text \<open>How \<open>pmap_pagefault\<close> ends: with \<open>trap_return(tf)\<close>, which resumes at the saved
  instruction pointer, or by returning to the dispatcher.\<close>
datatype pf_result = TrapReturn trapframe | Returned trapframe

definition cprintf :: "kstate \<Rightarrow> msg \<Rightarrow> kstate" where
  "cprintf s m = s\<lparr>conslog := conslog s @ [m]\<rparr>"

text \<open>\<open>pmap_pagefault\<close>; \<open>pdir\<close> is \<open>proc_cur()->pdir\<close> and \<open>cr2\<close> the value of \<open>rcr2()\<close>.
  The entry is read (\<open>oldpte = *pte\<close>) before \<open>pte\<close> is compared with \<open>NULL\<close>, and the
  result of \<open>mem_alloc\<close> is written through without a test.\<close>
definition pmap_pagefault ::
  "kstate \<Rightarrow> u32 \<Rightarrow> u32 \<Rightarrow> trapframe \<Rightarrow> error + (pf_result \<times> kstate)" where
  "pmap_pagefault s pdir cr2 tf0 =
     (let tf = tf0\<lparr>tf_trapno := T_PGFLT\<rparr>;
          fva = cr2 in
      if fva < VM_USERLO \<or> fva \<ge> VM_USERHI then Inr (Returned tf, cprintf s PagefaultOutside)
      else
        case pmap_walk s pdir fva True of
          Inl e \<Rightarrow> Inl e
        | Inr (None, s1) \<Rightarrow> Inl NullDeref
        | Inr (Some pte, s1) \<Rightarrow>
            let oldpte = peek s1 pte;
                permissions = PGOFF (peek s1 pte);
                pi = mem_phys2pi (PGADDR (peek s1 pte)) in
            if permissions AND PTE_W = 0 \<and> permissions AND SYS_WRITE \<noteq> 0 then
              (case (if mem_pi2phys pi = PTE_ZERO \<or> refcount s1 pi > 1 then
                       (case mem_alloc s1 of
                          (None, s2) \<Rightarrow> Inl NullDeref
                        | (Some pi_new, s2) \<Rightarrow>
                            let s3 = s2\<lparr>refcount := (refcount s2)(pi_new := 1)\<rparr>;
                                s4 = copy_page s3 (mem_pi2ptr pi_new) (PGADDR (peek s3 pte));
                                s5 = (if PGADDR (peek s4 pte) \<noteq> PTE_ZERO
                                      then mem_decref s4 (mem_phys2pi (PGADDR (peek s4 pte))) mem_free
                                      else s4);
                                s6 = poke s5 pte (mem_pi2phys pi_new)
                            in if \<not> (peek s6 pte \<noteq> oldpte) then Inl AssertFail else Inr s6)
                     else Inr s1) of
                 Inl e \<Rightarrow> Inl e
               | Inr s7 \<Rightarrow>
                   let permissions = (permissions OR PTE_W OR PTE_P) AND NOT SYS_RW
                   in Inr (TrapReturn tf, poke s7 pte (PGADDR (peek s7 pte) OR permissions)))
            else if tf_eip tf = 0x100948
              then Inr (TrapReturn tf, poke s1 pte (peek s1 pte OR PTE_P OR PTE_W))
            else Inr (Returned tf,
                   cprintf s1 (PagefaultBadPerm (permissions AND PTE_W) (permissions AND SYS_WRITE))))"

text \<open>\<open>pmap_mergepage\<close>. \<open>merge_words\<close> is its loop over the \<open>PAGESIZE/4\<close> words of the
  three pages, from word \<open>i\<close> on; a conflict ends it.\<close>
function merge_words :: "kstate \<Rightarrow> u32 \<Rightarrow> u32 \<Rightarrow> u32 \<Rightarrow> pteptr \<Rightarrow> nat \<Rightarrow> kstate" where
  "merge_words s rpg spg dpg dpte i =
     (if i < 1024 then
        (if mem s rpg i \<noteq> mem s spg i then
           (if mem s rpg i \<noteq> mem s dpg i \<and> mem s spg i \<noteq> mem s dpg i then
              (let s1 = cprintf s (MergeConflict (mem s spg i) (mem s rpg i) (mem s dpg i));
                   s2 = mem_decref s1 (mem_phys2pi (PGADDR (peek s1 dpte))) mem_free
               in poke s2 dpte PTE_ZERO)
            else merge_words (poke s (dpg, i) (mem s spg i)) rpg spg dpg dpte (Suc i))
         else merge_words s rpg spg dpg dpte (Suc i))
      else s)"
  by pat_completeness auto
termination
  by (relation "measure (\<lambda>(s, rpg, spg, dpg, dpte, i). 1024 - i)") auto

declare merge_words.simps [simp del]

definition mergepage_cow :: "kstate \<Rightarrow> pteptr \<Rightarrow> error + kstate" where
  "mergepage_cow s dpte =
     (let d_perm = PGOFF (peek s dpte) in
      if d_perm AND PTE_P \<noteq> 0 \<and> d_perm AND PTE_W = 0 \<and> d_perm AND SYS_WRITE \<noteq> 0 \<and>
         (PGADDR (peek s dpte) = PTE_ZERO \<or> refcount s (mem_phys2pi (PGADDR (peek s dpte))) \<ge> 1)
      then
        (let perm = (PGOFF (peek s dpte) OR PTE_W) AND NOT SYS_RW in
         case (if refcount s (mem_phys2pi (PGADDR (peek s dpte))) > 1 then
                 (case mem_alloc s of
                    (None, s1) \<Rightarrow> Inl NullDeref
                  | (Some pi_new, s1) \<Rightarrow>
                      let s2 = s1\<lparr>refcount := (refcount s1)(pi_new := 1)\<rparr>;
                          s3 = copy_page s2 (mem_pi2ptr pi_new) (PGADDR (peek s2 dpte));
                          s4 = (if PGADDR (peek s3 dpte) \<noteq> PTE_ZERO
                                then mem_decref s3 (mem_phys2pi (PGADDR (peek s3 dpte))) mem_free
                                else s3)
                      in Inr (poke s4 dpte (mem_pi2phys pi_new)))
               else Inr s) of
           Inl e \<Rightarrow> Inl e
         | Inr s5 \<Rightarrow> Inr (poke s5 dpte (PGADDR (peek s5 dpte) OR perm)))
      else Inr s)"

definition pmap_mergepage ::
  "kstate \<Rightarrow> pteptr \<Rightarrow> pteptr \<Rightarrow> pteptr \<Rightarrow> u32 \<Rightarrow> error + kstate" where
  "pmap_mergepage s rpte spte dpte dva =
     (case mergepage_cow s dpte of
        Inl e \<Rightarrow> Inl e
      | Inr s1 \<Rightarrow>
          let rpg = PGADDR (peek s1 rpte);
              spg = PGADDR (peek s1 spte);
              dpg = PGADDR (peek s1 dpte)
          in Inr (merge_words s1 rpg spg dpg dpte 0))"

text \<open>\<open>pmap_setperm\<close>: the loop over the pages, then the function with its assertions.\<close>
partial_function (option) setperm_loop ::
  "kstate \<Rightarrow> u32 \<Rightarrow> u32 \<Rightarrow> u32 \<Rightarrow> u32 \<Rightarrow> (error + kstate) option" where
  "setperm_loop s pdir a lim perm =
     (if a < lim then
        (case pmap_walk s pdir a True of
           Inl e \<Rightarrow> Some (Inl e)
         | Inr (None, s1) \<Rightarrow> Some (Inl AssertFail)
         | Inr (Some pte, s1) \<Rightarrow>
             setperm_loop (poke s1 pte (peek s1 pte OR perm OR PTE_U)) pdir (a + PAGESIZE) lim perm)
      else Some (Inr s))"

definition pmap_setperm :: "kstate \<Rightarrow> u32 \<Rightarrow> u32 \<Rightarrow> u32 \<Rightarrow> u32 \<Rightarrow> error + u32 \<times> kstate" where
  "pmap_setperm s pdir va sz perm =
     (if \<not> (PGOFF va = 0) then Inl AssertFail
      else if \<not> (PGOFF sz = 0) then Inl AssertFail
      else if \<not> (va \<ge> VM_USERLO \<and> va < VM_USERHI) then Inl AssertFail
      else if \<not> (sz \<le> VM_USERHI - va) then Inl AssertFail
      else if \<not> (perm AND NOT SYS_RW = 0) then Inl AssertFail
      else
        case setperm_loop s pdir va (va + sz) perm of
          None \<Rightarrow> Inl Diverges
        | Some (Inl e) \<Rightarrow> Inl e
        | Some (Inr s1) \<Rightarrow> Inr (sz, s1))"


section \<open>User memory access: \<open>kern/syscall.c\<close>\<close>

text \<open>The per-CPU recovery slot: the handler installed (if any) and its data, which for
  \<open>sysrecover\<close> is the user's trap frame.\<close>
datatype recoverfn = Sysrecover | OtherRecover nat

record cpu =
  recover :: "recoverfn option"
  recoverdata :: "trapframe option"

text \<open>\<open>systrap\<close> does not return: it ends in \<open>proc_ret(utf, 0)\<close>, which hands the frame to
  the parent. \<open>ProcRet tf entry\<close> is that call.\<close>
datatype procret = ProcRet trapframe int

definition systrap :: "trapframe \<Rightarrow> u32 \<Rightarrow> u32 \<Rightarrow> procret" where
  "systrap utf trapno err = ProcRet (utf\<lparr>tf_trapno := trapno, tf_err := err\<rparr>) 0"

text \<open>\<open>checkva\<close>: \<open>Some\<close> when it leaves through \<open>systrap\<close>, \<open>None\<close> when it returns.\<close>
definition checkva :: "trapframe \<Rightarrow> u32 \<Rightarrow> u32 \<Rightarrow> procret option" where
  "checkva utf uva sz =
     (if uva < VM_USERLO \<or> uva \<ge> VM_USERHI \<or> sz > VM_USERHI - uva
      then Some (systrap utf T_PGFLT 0) else None)"

text \<open>\<open>usercopy\<close> either leaves through \<open>checkva\<close>, or runs one \<open>memmove\<close> with the recovery
  slot set and restores the slot's handler. \<open>Copied dst src n during after\<close> is the
  \<open>memmove(dst, src, n)\<close> that ran, the slot while it ran and the slot afterwards; the
  copy itself goes through the MMU and is not computed here.\<close>
datatype usercopy_result = Reflected procret | Copied u32 u32 u32 cpu cpu

definition usercopy :: "cpu \<Rightarrow> trapframe \<Rightarrow> bool \<Rightarrow> u32 \<Rightarrow> u32 \<Rightarrow> u32 \<Rightarrow> usercopy_result" where
  "usercopy cp utf copyout kva uva sz =
     (case checkva utf uva sz of
        Some r \<Rightarrow> Reflected r
      | None \<Rightarrow>
          let temp = recover cp;
              cp1 = cp\<lparr>recover := Some Sysrecover, recoverdata := Some utf\<rparr>;
              cp2 = cp1\<lparr>recover := temp\<rparr>
          in if copyout then Copied uva kva sz cp1 cp2
             else Copied kva uva sz cp1 cp2)"


text \<open>What the word loop of \<open>pmap_mergepage\<close> has written when it has passed the words
  \<open>i\<close> to \<open>k - 1\<close> without a conflict: each of these words of the destination page holds
  the source's word where source and reference differ.\<close>
definition merged :: "kstate \<Rightarrow> u32 \<Rightarrow> u32 \<Rightarrow> u32 \<Rightarrow> nat \<Rightarrow> nat \<Rightarrow> kstate" where
  "merged s rpg spg dpg i k =
     s\<lparr>mem := (mem s)(dpg := (\<lambda>j. if i \<le> j \<and> j < k \<and> mem s rpg j \<noteq> mem s spg j
                                  then mem s spg j else mem s dpg j))\<rparr>"


text \<open>What \<open>pmap_copy\<close> makes of one entry of a source table, in the words of the
  specification: an entry over the zero frame stays as it is; any other entry keeps its
  frame and its other bits, loses hardware \<open>W\<close>, gains nominal \<open>SYS_READ\<close>, and gains
  nominal \<open>SYS_WRITE\<close> when it was writable through \<open>W\<close> or through \<open>SYS_WRITE\<close>.\<close>
definition cow_entry :: "u32 \<Rightarrow> u32" where
  "cow_entry e =
     (if PGADDR e = PTE_ZERO then e
      else (e AND NOT PTE_W) OR SYS_READ OR
           (if e AND (PTE_W OR SYS_WRITE) = 0 then 0 else SYS_WRITE))"

text \<open>The number of entries among the first \<open>n\<close> of the table \<open>tab\<close> whose frame is
  \<open>f\<close>.\<close>
definition nrefs :: "kstate \<Rightarrow> u32 \<Rightarrow> nat \<Rightarrow> u32 \<Rightarrow> int" where
  "nrefs s tab n f = int (length (filter (\<lambda>i. PGADDR (mem s tab i) = f) [0..<n]))"


text \<open>The state after the inner loop of \<open>pmap_copy\<close> has passed the first \<open>n\<close> entries
  of the table \<open>tab\<close>: these entries are rewritten, and every frame other than the zero
  frame has gained one reference for each of them that maps it.\<close>
definition copied :: "kstate \<Rightarrow> u32 \<Rightarrow> nat \<Rightarrow> kstate" where
  "copied s tab n =
     s\<lparr>mem := (mem s)(tab := (\<lambda>i. if i < n then cow_entry (mem s tab i) else mem s tab i)),
       refcount := (\<lambda>f. if f = PTE_ZERO then refcount s f else refcount s f + nrefs s tab n f)\<rparr>"

text \<open>\<open>n\<close> consecutive PDE pairs treated one after the other by the body of the outer
  loop of \<open>pmap_copy\<close>, up to the first allocation that fails.\<close>
fun copy_pdes :: "nat \<Rightarrow> kstate \<Rightarrow> pteptr \<Rightarrow> pteptr \<Rightarrow> error + int \<times> kstate" where
  "copy_pdes 0 s spentry dpentry = Inr (1, s)"
| "copy_pdes (Suc n) s spentry dpentry =
     (case copy_pde s spentry dpentry of
        Inl e \<Rightarrow> Inl e
      | Inr r \<Rightarrow>
          if fst r
          then copy_pdes n (snd r) (fst spentry, Suc (snd spentry)) (fst dpentry, Suc (snd dpentry))
          else Inr (0, snd r))"


text \<open>The shape of the user part of a page directory that the frame properties of
  \<open>pmap_remove\<close> rest on: a page table is not the directory itself, and two different
  PDEs of the user window do not share a page table.\<close>
definition wf_pdir :: "kstate \<Rightarrow> u32 \<Rightarrow> bool" where
  "wf_pdir s pdir \<longleftrightarrow>
     (\<forall>i. PDX VM_USERLO \<le> i \<and> i < PDX VM_USERHI \<and> mem s pdir i \<noteq> PTE_ZERO \<longrightarrow>
          PGADDR (mem s pdir i) \<noteq> pdir) \<and>
     (\<forall>i j. PDX VM_USERLO \<le> i \<and> i < PDX VM_USERHI \<and> PDX VM_USERLO \<le> j \<and> j < PDX VM_USERHI \<and>
            mem s pdir i \<noteq> PTE_ZERO \<and> mem s pdir j \<noteq> PTE_ZERO \<and>
            PGADDR (mem s pdir i) = PGADDR (mem s pdir j) \<longrightarrow> i = j)"

text \<open>What holds of every state \<open>t\<close> that \<open>pmap_remove\<close> passes through on its way from
  the state \<open>s\<close>, for the range from \<open>lo\<close> up to \<open>hi\<close>: no frame was allocated, a PDE is
  either as it was or \<open>PTE_ZERO\<close>, and the PDE and the PTE of every address outside the
  range are as they were.\<close>
definition remove_inv :: "kstate \<Rightarrow> u32 \<Rightarrow> u32 \<Rightarrow> u32 \<Rightarrow> kstate \<Rightarrow> bool" where
  "remove_inv s pdir lo hi t \<longleftrightarrow>
     nalloc t = nalloc s \<and>
     (\<forall>i. mem t pdir i = mem s pdir i \<or> mem t pdir i = PTE_ZERO) \<and>
     (\<forall>v. \<not> (lo \<le> v \<and> v < hi) \<longrightarrow> mem t pdir (PDX v) = mem s pdir (PDX v)) \<and>
     (\<forall>v. \<not> (lo \<le> v \<and> v < hi) \<and> VM_USERLO \<le> v \<and> v < VM_USERHI \<and>
          mem s pdir (PDX v) \<noteq> PTE_ZERO \<longrightarrow>
          mem t (PGADDR (mem s pdir (PDX v))) (PTX v) =
          mem s (PGADDR (mem s pdir (PDX v))) (PTX v))"


section \<open>Example states\<close>

text \<open>The user part of the bootstrap page directory as the loop of \<open>pmap_init\<close> fills it:
  \<open>PTE_ZERO\<close> inside the user window, a global 4 MiB identity mapping outside.\<close>
definition pmap_bootpdir :: "nat \<Rightarrow> u32" where
  "pmap_bootpdir i =
     (let addr = of_nat i * PTSIZE in
      if addr \<ge> VM_USERLO \<and> addr < VM_USERHI then PTE_ZERO
      else push_bit 22 (of_nat i) OR PTE_P OR PTE_W OR PTE_PS OR PTE_G)"

text \<open>Four frames above the kernel image: a page directory, a page table and two
  frames for data or for the allocator.\<close>
definition ex_pdir :: u32 where
  "ex_pdir = 0x00200000"

definition ex_ptab :: u32 where
  "ex_ptab = 0x00201000"

definition ex_frame :: u32 where
  "ex_frame = 0x00300000"

definition ex_fresh :: u32 where
  "ex_fresh = 0x00301000"

text \<open>A directory with no user mapping, and the given free list.\<close>
definition ex_empty :: "u32 list \<Rightarrow> kstate" where
  "ex_empty fl =
     \<lparr>mem = (\<lambda>a i. 0)(ex_pdir := pmap_bootpdir),
      refcount = (\<lambda>a. 0)(ex_pdir := 1),
      freelist = fl, conslog = [], nalloc = 0\<rparr>"

text \<open>A directory whose first user PDE maps the table \<open>ex_ptab\<close>; the table holds the
  entry \<open>pte\<close> for \<open>VM_USERLO\<close> and \<open>PTE_ZERO\<close> elsewhere. \<open>rc\<close> is the refcount of
  \<open>ex_frame\<close>, \<open>fl\<close> the free list.\<close>
definition ex_mapped :: "u32 \<Rightarrow> int \<Rightarrow> u32 list \<Rightarrow> kstate" where
  "ex_mapped pte rc fl =
     \<lparr>mem = (\<lambda>a i. 0)
        (ex_pdir := pmap_bootpdir(256 := ex_ptab OR PTE_A OR PTE_P OR PTE_W OR PTE_U),
         ex_ptab := (\<lambda>i. PTE_ZERO)(0 := pte)),
      refcount = (\<lambda>a. 0)(ex_pdir := 1, ex_ptab := 1, ex_frame := rc),
      freelist = fl, conslog = [], nalloc = 0\<rparr>"

text \<open>Three data pages behind the entries 0, 1 and 2 of \<open>ex_ptab\<close>, all mapped
  writable: a reference page of zeros, a source page that changed the words 0 and 1 to
  \<open>0xA\<close> and holds \<open>c\<close> in word 2, and a destination page that changed word 2 to \<open>0xB\<close>.\<close>
definition ex_merge :: "u32 \<Rightarrow> kstate" where
  "ex_merge c =
     \<lparr>mem = (\<lambda>a i. 0)
        (ex_ptab := (\<lambda>i. PTE_ZERO)(0 := 0x00400007, 1 := 0x00401007, 2 := 0x00402007),
         0x00401000 := (\<lambda>i. 0)(0 := 0xA, 1 := 0xA, 2 := c),
         0x00402000 := (\<lambda>i. 0)(2 := 0xB)),
      refcount = (\<lambda>a. 0)(ex_ptab := 1, 0x00400000 := 1, 0x00401000 := 1, 0x00402000 := 1),
      freelist = [], conslog = [], nalloc = 0\<rparr>"

definition ex_tf :: trapframe where
  "ex_tf = \<lparr>tf_trapno = 48, tf_err = 0, tf_eip = 0x40001000\<rparr>"


section \<open>Address arithmetic\<close>

lemma mask12: "(0xFFF :: u32) = mask 12"
  by (simp add: mask_eq_exp_minus_1)

lemma mask22: "(0x3FFFFF :: u32) = mask 22"
  by (simp add: mask_eq_exp_minus_1)

lemma mask10: "(0x3FF :: u32) = mask 10"
  by (simp add: mask_eq_exp_minus_1)

lemma PGOFF_PTE_ZERO: "PGOFF PTE_ZERO = 0"
  by (simp add: PGOFF_def PTE_ZERO_def)

lemma PGADDR_PTE_ZERO: "PGADDR PTE_ZERO = PTE_ZERO"
  by (simp add: PGADDR_def PTE_ZERO_def)

lemma PGADDR_PGOFF: "PGADDR x OR PGOFF x = x"
  unfolding PGADDR_def PGOFF_def mask12
  by (rule bit_eqI) (auto simp: bit_simps)

lemma PGADDR_or_flags: "PGOFF a = 0 \<Longrightarrow> PGADDR f = 0 \<Longrightarrow> PGADDR (a OR f) = a"
  unfolding PGADDR_def PGOFF_def mask12
  apply (rule bit_eqI)
  apply (simp add: bit_simps bit_eq_iff)
  apply (auto simp: bit_simps)
  done

lemma PGOFF_or_flags: "PGOFF a = 0 \<Longrightarrow> PGADDR f = 0 \<Longrightarrow> PGOFF (a OR f) = f"
  unfolding PGADDR_def PGOFF_def mask12
  apply (rule bit_eqI)
  apply (simp add: bit_simps bit_eq_iff)
  apply (auto simp: bit_simps)
  done


lemma PDX_ex:
  "PDX 0x40001000 = 256" "PTX 0x40001000 = 1" "PDX 0x40000000 = 256" "PTX 0x40000000 = 0"
  by (simp_all add: PDX_def PTX_def drop_bit_eq_div)

lemma bootpdir_256: "pmap_bootpdir 256 = PTE_ZERO"
  by (simp add: pmap_bootpdir_def PTSIZE_def VM_USERLO_def VM_USERHI_def)


section \<open>The walker\<close>

lemma clear_fold:
  "fold (\<lambda>i t. poke t (p, i) PTE_ZERO) [0..<n] s =
     s\<lparr>mem := (mem s)(p := (\<lambda>i. if i < n then PTE_ZERO else mem s p i))\<rparr>"
proof (induction n)
  case 0
  show ?case by simp
next
  case (Suc n)
  have "fold (\<lambda>i t. poke t (p, i) PTE_ZERO) [0..<Suc n] s =
        poke (fold (\<lambda>i t. poke t (p, i) PTE_ZERO) [0..<n] s) (p, n) PTE_ZERO"
    by simp
  also have "\<dots> = poke (s\<lparr>mem := (mem s)(p := (\<lambda>i. if i < n then PTE_ZERO else mem s p i))\<rparr>)
                      (p, n) PTE_ZERO"
    by (simp only: Suc)
  also have "\<dots> = s\<lparr>mem := (mem s)(p := (\<lambda>i. if i < Suc n then PTE_ZERO else mem s p i))\<rparr>"
    by (simp add: poke_def fun_eq_iff less_Suc_eq)
  finally show ?case .
qed

lemma ptable_clear_eq:
  "ptable_clear s p = s\<lparr>mem := (mem s)(p := (\<lambda>i. if i < 1024 then PTE_ZERO else mem s p i))\<rparr>"
  by (simp add: ptable_clear_def clear_fold)

text \<open>
  Claim C8. Let \<open>va\<close> lie in the user window and let its PDE be \<open>PTE_ZERO\<close>. Then
  \<open>pmap_walk\<close> without \<open>writing\<close> returns \<open>NULL\<close> and changes nothing. With \<open>writing\<close> and
  a frame \<open>pi\<close> at the head of the free list (page-aligned, not the directory itself, and
  with refcount 0 as the allocator hands frames out), it returns the pointer to entry
  \<open>PTX va\<close> of the page \<open>pi\<close>; afterwards all 1024 entries of \<open>pi\<close> are \<open>PTE_ZERO\<close>,
  the refcount of \<open>pi\<close> is 1, and the PDE holds the address \<open>pi\<close> with exactly the flags
  \<open>P|W|U|A\<close>.
\<close>
theorem walk_empty_pde:
  assumes "VM_USERLO \<le> va" and "va < VM_USERHI" and "peek s (pdir, PDX va) = PTE_ZERO"
  shows "pmap_walk s pdir va False = Inr (None, s) \<and>
         (freelist s = pi # rest \<and> PGOFF pi = 0 \<and> pi \<noteq> pdir \<and> refcount s pi = 0 \<longrightarrow>
           (\<exists>s'. pmap_walk s pdir va True = Inr (Some (pi, PTX va), s') \<and>
                 (\<forall>i<1024. mem s' pi i = PTE_ZERO) \<and>
                 refcount s' pi = 1 \<and>
                 PGADDR (mem s' pdir (PDX va)) = pi \<and>
                 PGOFF (mem s' pdir (PDX va)) = PTE_P OR PTE_W OR PTE_U OR PTE_A))"
proof -
  have flags: "PGADDR (PTE_A OR PTE_P OR PTE_W OR PTE_U) = 0"
    by (simp add: PGADDR_def PTE_A_def PTE_P_def PTE_W_def PTE_U_def)
  have nz: "PGOFF pi = 0 \<Longrightarrow> pi OR PTE_A OR PTE_P OR PTE_W OR PTE_U \<noteq> PTE_ZERO"
  proof
    assume a: "PGOFF pi = 0" and b: "pi OR PTE_A OR PTE_P OR PTE_W OR PTE_U = PTE_ZERO"
    have "PGOFF (pi OR (PTE_A OR PTE_P OR PTE_W OR PTE_U)) = PTE_A OR PTE_P OR PTE_W OR PTE_U"
      by (rule PGOFF_or_flags[OF a flags])
    with b show False
      by (simp add: or.assoc PGOFF_PTE_ZERO PTE_A_def PTE_P_def PTE_W_def PTE_U_def)
  qed
  show ?thesis
    using assms nz
      PGADDR_or_flags[OF _ flags, of pi] PGOFF_or_flags[OF _ flags, of pi]
    by (auto simp: pmap_walk_def mem_alloc_def mem_incref_def ptable_clear_eq poke_def peek_def
        mem_pi2ptr_def mem_pi2phys_def Let_def or.assoc or.commute or.left_commute)
qed

theorem walk_empty_pde_witness:
  "VM_USERLO \<le> 0x40001000 \<and> 0x40001000 < VM_USERHI \<and>
   peek (ex_empty [ex_fresh]) (ex_pdir, PDX 0x40001000) = PTE_ZERO \<and>
   freelist (ex_empty [ex_fresh]) = ex_fresh # [] \<and> PGOFF ex_fresh = 0 \<and> ex_fresh \<noteq> ex_pdir \<and>
   refcount (ex_empty [ex_fresh]) ex_fresh = 0 \<and>
   pmap_walk (ex_empty [ex_fresh]) ex_pdir 0x40001000 False = Inr (None, ex_empty [ex_fresh]) \<and>
   (\<exists>s'. pmap_walk (ex_empty [ex_fresh]) ex_pdir 0x40001000 True = Inr (Some (ex_fresh, 1), s') \<and>
         (\<forall>i<1024. mem s' ex_fresh i = PTE_ZERO) \<and>
         refcount s' ex_fresh = 1 \<and>
         PGADDR (mem s' ex_pdir 256) = ex_fresh \<and>
         PGOFF (mem s' ex_pdir 256) = 0x27)"
proof -
  have h1: "VM_USERLO \<le> 0x40001000" and h2: "0x40001000 < VM_USERHI"
    by (simp_all add: VM_USERLO_def VM_USERHI_def)
  have h3: "peek (ex_empty [ex_fresh]) (ex_pdir, PDX 0x40001000) = PTE_ZERO"
    by (simp add: peek_def ex_empty_def PDX_ex bootpdir_256)
  have h4: "freelist (ex_empty [ex_fresh]) = ex_fresh # [] \<and> PGOFF ex_fresh = 0 \<and>
            ex_fresh \<noteq> ex_pdir \<and> refcount (ex_empty [ex_fresh]) ex_fresh = 0"
    by (simp add: ex_empty_def ex_fresh_def ex_pdir_def PGOFF_def)
  show ?thesis
    using walk_empty_pde [OF h1 h2 h3, of ex_fresh "[]"] h1 h2 h3 h4
    by (simp add: PDX_ex PTE_P_def PTE_W_def PTE_U_def PTE_A_def)
qed


section \<open>Validated copies to and from user memory\<close>

lemma checkva_iff:
  "checkva utf uva sz = None \<longleftrightarrow>
     VM_USERLO \<le> uva \<and> uva < VM_USERHI \<and>
     {unat uva ..< unat uva + unat sz} \<subseteq> {unat VM_USERLO ..< unat VM_USERHI}"
  apply (simp add: checkva_def VM_USERLO_def VM_USERHI_def word_le_nat_alt word_less_nat_alt unat_sub)
  apply (auto simp: not_less unat_sub word_le_nat_alt)
  done

text \<open>
  Claim C6, as amended. \<open>usercopy\<close> runs its \<open>memmove\<close> (under the recovery slot
  \<open>sysrecover\<close> with the user's frame as data, the slot's handler restored afterwards)
  exactly when \<open>uva\<close> itself lies in \<open>[VM_USERLO, VM_USERHI)\<close> and the byte range
  \<open>[uva, uva+size)\<close>, taken without wrap-around, lies within that window. Otherwise it
  copies nothing and calls \<open>proc_ret(utf, 0)\<close> on the user's frame with \<open>trapno = T_PGFLT\<close>
  and \<open>err = 0\<close>, every other field of the frame, the saved \<open>eip\<close> among them, as it was.
  For a size above 0 the first condition follows from the second.
\<close>
theorem usercopy_checks_range:
  "usercopy cp utf copyout kva uva sz =
     (if VM_USERLO \<le> uva \<and> uva < VM_USERHI \<and>
         {unat uva ..< unat uva + unat sz} \<subseteq> {unat VM_USERLO ..< unat VM_USERHI}
      then Copied (if copyout then uva else kva) (if copyout then kva else uva) sz
             (cp\<lparr>recover := Some Sysrecover, recoverdata := Some utf\<rparr>)
             (cp\<lparr>recoverdata := Some utf\<rparr>)
      else Reflected (ProcRet (utf\<lparr>tf_trapno := T_PGFLT, tf_err := 0\<rparr>) 0))"
  using checkva_iff[of utf uva sz]
  apply (cases "checkva utf uva sz")
   apply (simp_all add: usercopy_def)
  apply (auto simp: checkva_def systrap_def split: if_splits)
  done

text \<open>
  Claim C6 as stated fails for an empty range whose address is outside the window: the
  range \<open>[0, 0)\<close> lies within every window, and \<open>usercopy\<close> reflects a page fault.
\<close>
theorem usercopy_empty_range_counterexample:
  "{unat (0::u32) ..< unat (0::u32) + unat (0::u32)} \<subseteq> {unat VM_USERLO ..< unat VM_USERHI} \<and>
   usercopy \<lparr>recover = None, recoverdata = None\<rparr> ex_tf False 0x00100000 0 0 =
     Reflected (ProcRet \<lparr>tf_trapno = 14, tf_err = 0, tf_eip = 0x40001000\<rparr> 0)"
  by (simp add: usercopy_def checkva_def systrap_def VM_USERLO_def VM_USERHI_def T_PGFLT_def
      ex_tf_def)



section \<open>Evaluation on the example states\<close>

lemmas consts_defs = VM_USERLO_def VM_USERHI_def PAGESIZE_def PTSIZE_def PTE_ZERO_def
  PTE_P_def PTE_W_def PTE_U_def PTE_A_def SYS_READ_def SYS_WRITE_def SYS_RW_def
  PGOFF_def PGADDR_def PTOFF_def ROUNDUP_def ROUNDDOWN_def

lemmas ex_defs = ex_pdir_def ex_ptab_def ex_frame_def ex_fresh_def

lemma ex_mapped_peek:
  "peek (ex_mapped pte rc fl) (ex_pdir, 256) = ex_ptab OR PTE_A OR PTE_P OR PTE_W OR PTE_U"
  "peek (ex_mapped pte rc fl) (ex_ptab, 0) = pte"
  by (simp_all add: peek_def ex_mapped_def ex_defs)

lemma ex_mapped_walk:
  "pmap_walk (ex_mapped pte rc fl) ex_pdir 0x40000000 w =
     Inr (Some (ex_ptab, 0), ex_mapped pte rc fl)"
  by (simp add: pmap_walk_def PDX_ex ex_mapped_peek Let_def) (simp add: consts_defs ex_defs)

lemma ex_empty_pde: "peek (ex_empty fl) (ex_pdir, 256) = PTE_ZERO"
  by (simp add: peek_def ex_empty_def bootpdir_256)

text \<open>
  Claim C9 fails on the code. \<open>pmap_setperm\<close> ORs \<open>perm | PTE_U\<close> into the entry and
  nothing else: with \<open>SYS_READ\<close> on a \<open>PTE_ZERO\<close> slot the entry becomes
  \<open>PTE_ZERO | SYS_READ | PTE_U\<close>, whose \<open>P\<close> bit is clear, so the zero frame is not
  present to the hardware. The comment above the function promises \<open>PTE_P\<close> but not
  \<open>PTE_W\<close>, and the loops of \<open>do_put\<close> and \<open>do_get\<close> add \<open>PTE_P | PTE_U\<close>.
\<close>
theorem setperm_read_not_present:
  "pmap_setperm (ex_mapped PTE_ZERO 0 []) ex_pdir 0x40000000 0x1000 SYS_READ =
     Inr (0x1000, poke (ex_mapped PTE_ZERO 0 []) (ex_ptab, 0) 0x00120204) \<and>
   (0x00120204 :: u32) = PTE_ZERO OR SYS_READ OR PTE_U \<and>
   (0x00120204 :: u32) AND PTE_P = 0"
proof -
  have loop: "setperm_loop (ex_mapped PTE_ZERO 0 []) ex_pdir 0x40000000 0x40001000 SYS_READ =
        Some (Inr (poke (ex_mapped PTE_ZERO 0 []) (ex_ptab, 0) 0x00120204))"
    apply (subst setperm_loop.simps)
    apply (simp add: ex_mapped_walk ex_mapped_peek)
    apply (subst setperm_loop.simps)
    apply (simp add: consts_defs)
    done
  show ?thesis
    by (simp add: pmap_setperm_def loop) (simp add: consts_defs)
qed

text \<open>
  Claim C2 fails on the code. A slot that holds only a nominal permission over the zero
  frame, \<open>PTE_ZERO | SYS_READ\<close>, is left as it is by \<open>pmap_remove\<close> of its page: the
  first and last loop clear an entry only when its frame is not the zero frame. The
  comment above the function says that it clears the nominal permissions as well.
\<close>
theorem remove_keeps_nominal_bits:
  "pmap_remove (ex_mapped 0x00120200 0 []) ex_pdir 0x40000000 0x1000 =
     Inr (ex_mapped 0x00120200 0 []) \<and>
   peek (ex_mapped 0x00120200 0 []) (ex_ptab, 0) = PTE_ZERO OR SYS_READ \<and>
   peek (ex_mapped 0x00120200 0 []) (ex_ptab, 0) \<noteq> PTE_ZERO"
proof -
  have pte: "remove_pte (ex_mapped 0x00120200 0 []) ex_pdir 0x40000000 =
        Inr (ex_mapped 0x00120200 0 [])"
    by (simp add: remove_pte_def PDX_ex ex_mapped_walk ex_mapped_peek Let_def)
       (simp add: consts_defs ex_defs)
  have head: "remove_head (ex_mapped 0x00120200 0 []) ex_pdir 0x40000000 0x40001000 =
        Some (Inr (ex_mapped 0x00120200 0 [], 0x40000000))"
    by (subst remove_head.simps) (simp add: consts_defs)
  have bulk: "remove_bulk (ex_mapped 0x00120200 0 []) ex_pdir 0x40000000 0x40001000 =
        Some (ex_mapped 0x00120200 0 [], 0x40000000)"
    by (subst remove_bulk.simps) (simp add: consts_defs)
  have tail: "remove_tail (ex_mapped 0x00120200 0 []) ex_pdir 0x40000000 0x40001000 =
        Some (Inr (ex_mapped 0x00120200 0 []))"
    apply (subst remove_tail.simps)
    apply (simp add: pte)
    apply (subst remove_tail.simps)
    apply (simp add: consts_defs)
    done
  show ?thesis
    by (simp add: pmap_remove_def head bulk tail ex_mapped_peek) (simp add: consts_defs)
qed

text \<open>
  Claim C7 fails on the code. With an empty free list the walker in create mode and
  \<open>pmap_insert\<close> return \<open>NULL\<close> and \<open>pmap_copy\<close> returns 0, all without a change
  of state. \<open>pmap_pagefault\<close> does not handle either failure: on a failed walk it reads
  \<open>*pte\<close> before it tests \<open>pte\<close>, and on a copy-on-write fault that needs a new frame
  (here a frame with refcount 2) it writes \<open>pi_new->refcount\<close> through the \<open>NULL\<close> that
  \<open>mem_alloc\<close> returned.
\<close>
theorem exhausted_allocator:
  "pmap_walk (ex_empty []) ex_pdir 0x40000000 True = Inr (None, ex_empty []) \<and>
   pmap_insert (ex_empty []) ex_pdir ex_frame 0x40000000 0 = Inr (None, ex_empty []) \<and>
   pmap_copy (ex_mapped 0x00300605 2 []) ex_pdir 0x40000000 ex_fresh 0x40000000 0x400000 =
     Inr (0, ex_mapped 0x00300605 2 []) \<and>
   pmap_pagefault (ex_empty []) ex_pdir 0x40000000 ex_tf = Inl NullDeref \<and>
   pmap_pagefault (ex_mapped 0x00300605 2 []) ex_pdir 0x40000000 ex_tf = Inl NullDeref"
proof -
  have walk: "pmap_walk (ex_empty []) ex_pdir 0x40000000 True = Inr (None, ex_empty [])"
    by (simp add: pmap_walk_def PDX_ex ex_empty_pde mem_alloc_def)
       (simp add: ex_empty_def consts_defs)
  have ins: "pmap_insert (ex_empty []) ex_pdir ex_frame 0x40000000 0 = Inr (None, ex_empty [])"
    by (simp add: pmap_insert_def walk)
  have pde: "copy_pde (ex_mapped 0x00300605 2 []) (ex_pdir, 256) (ex_fresh, 256) =
               Inr (False, ex_mapped 0x00300605 2 [])"
    by (simp add: copy_pde_def ex_mapped_peek mem_alloc_def)
       (simp add: ex_mapped_def consts_defs ex_defs)
  have loop: "copy_loop (ex_mapped 0x00300605 2 []) 0x40000000 0x40400000
                (ex_pdir, 256) (ex_fresh, 256) = Some (Inr (0, ex_mapped 0x00300605 2 []))"
    by (subst copy_loop.simps) (simp add: pde)
  have copy: "pmap_copy (ex_mapped 0x00300605 2 []) ex_pdir 0x40000000 ex_fresh 0x40000000
                0x400000 = Inr (0, ex_mapped 0x00300605 2 [])"
    by (simp add: pmap_copy_def PDX_ex loop) (simp add: consts_defs)
  have pf1: "pmap_pagefault (ex_empty []) ex_pdir 0x40000000 ex_tf = Inl NullDeref"
    by (simp add: pmap_pagefault_def walk Let_def) (simp add: consts_defs)
  have pf2: "pmap_pagefault (ex_mapped 0x00300605 2 []) ex_pdir 0x40000000 ex_tf = Inl NullDeref"
    by (simp add: pmap_pagefault_def ex_mapped_walk ex_mapped_peek Let_def mem_alloc_def
          mem_phys2pi_def mem_pi2phys_def)
       (simp add: ex_mapped_def consts_defs ex_defs)
  show ?thesis
    using walk ins copy pf1 pf2 by simp
qed

section \<open>Flag bits\<close>
lemma u32_eq_iff: "(a::u32) = b \<longleftrightarrow> (\<forall>n<32. bit a n = bit b n)"
  by (auto simp: bit_eq_iff dest: bit_imp_le_length)

lemma pow_bit: "k < 32 \<Longrightarrow> bit ((2::u32) ^ k) n \<longleftrightarrow> n = k"
  by (auto simp: bit_exp_iff possible_bit_word)

lemma bit_flags:
  "bit PTE_P n \<longleftrightarrow> n = 0" "bit PTE_W n \<longleftrightarrow> n = 1" "bit PTE_U n \<longleftrightarrow> n = 2"
  "bit PTE_A n \<longleftrightarrow> n = 5" "bit SYS_READ n \<longleftrightarrow> n = 9" "bit SYS_WRITE n \<longleftrightarrow> n = 10"
  using pow_bit[of 0 n] pow_bit[of 1 n] pow_bit[of 2 n] pow_bit[of 5 n] pow_bit[of 9 n]
    pow_bit[of 10 n]
  by (simp_all add: PTE_P_def PTE_W_def PTE_U_def PTE_A_def SYS_READ_def SYS_WRITE_def)

lemma SYS_RW_eq: "SYS_RW = SYS_READ OR SYS_WRITE"
  by (simp add: SYS_RW_def SYS_READ_def SYS_WRITE_def)

lemma bit_SYS_RW: "bit SYS_RW n \<longleftrightarrow> n = 9 \<or> n = 10"
  by (simp add: SYS_RW_eq bit_or_iff bit_flags)

lemma bit_PGOFF: "bit (PGOFF x) n \<longleftrightarrow> bit x n \<and> n < 12"
  by (auto simp add: PGOFF_def mask12 bit_simps dest: bit_imp_le_length)

lemma bit_PGADDR: "bit (PGADDR x) n \<longleftrightarrow> bit x n \<and> 12 \<le> n"
  by (auto simp add: PGADDR_def mask12 bit_simps dest: bit_imp_le_length)

lemma bit_u32_zero: "bit (0::u32) n = False"
  by simp

lemmas bit_pte = bit_flags bit_SYS_RW bit_PGOFF bit_PGADDR bit_and_iff bit_or_iff bit_not_iff
  possible_bit_word bit_u32_zero

lemma resolved_bits:
  fixes a y :: u32
  assumes "PGOFF a = 0" and "x = a OR ((PGOFF y OR PTE_W OR PTE_P) AND NOT SYS_RW)"
  shows "x AND PTE_W = PTE_W" "x AND PTE_P = PTE_P" "x AND SYS_RW = 0" "PGADDR x = a"
  using assms
  by (auto simp: u32_eq_iff bit_pte)


lemma PGADDR_idem: "PGADDR (PGADDR x) = PGADDR x"
  by (auto simp: u32_eq_iff bit_pte)

lemma PGOFF_PGADDR: "PGOFF (PGADDR x) = 0"
  by (auto simp: u32_eq_iff bit_pte)

lemma PGOFF_and_flag:
  "PGOFF x AND PTE_W = x AND PTE_W" "PGOFF x AND SYS_WRITE = x AND SYS_WRITE"
  "PGOFF x AND PTE_P = x AND PTE_P"
  by (auto simp: u32_eq_iff bit_pte)

lemma PGADDR_aligned: "PGOFF a = 0 \<Longrightarrow> PGADDR a = a"
  by (auto simp: u32_eq_iff bit_pte)

lemma aligned_no_flag: "PGOFF a = 0 \<Longrightarrow> a AND SYS_WRITE = 0"
  by (auto simp: u32_eq_iff bit_pte)

lemma aligned_neq_flagged: "PGOFF a = 0 \<Longrightarrow> x AND SYS_WRITE \<noteq> 0 \<Longrightarrow> a \<noteq> x"
  using aligned_no_flag by blast


section \<open>Reading the state\<close>
lemma peek_upd:
  "peek (s\<lparr>refcount := r\<rparr>) q = peek s q"
  "peek (s\<lparr>freelist := fl\<rparr>) q = peek s q"
  "peek (s\<lparr>nalloc := n\<rparr>) q = peek s q"
  "peek (s\<lparr>conslog := l\<rparr>) q = peek s q"
  "peek (mem_incref s pi) q = peek s q"
  "peek (mem_free s pi) q = peek s q"
  "peek (mem_decref s pi mem_free) q = peek s q"
  "peek (cprintf s m) q = peek s q"
  by (simp_all add: peek_def mem_incref_def mem_free_def mem_decref_def cprintf_def Let_def)

lemma peek_poke: "peek (poke s p v) q = (if q = p then v else peek s q)"
  by (cases p; cases q) (simp add: peek_def poke_def)

lemma peek_copy_page:
  "peek (copy_page s d src) q = (if fst q = d then mem s src (snd q) else peek s q)"
  by (simp add: peek_def copy_page_def)

lemma walk_present:
  "VM_USERLO \<le> va \<Longrightarrow> va < VM_USERHI \<Longrightarrow> peek s (pdir, PDX va) \<noteq> PTE_ZERO \<Longrightarrow>
   pmap_walk s pdir va w = Inr (Some (PGADDR (peek s (pdir, PDX va)), PTX va), s)"
  by (simp add: pmap_walk_def Let_def)


section \<open>Copy-on-write faults\<close>

text \<open>
  Claim C1. Let the fault address lie in the user window, let its page table exist, and
  let its entry \<open>pte\<close> have hardware \<open>W\<close> clear and nominal \<open>SYS_WRITE\<close> set; \<open>f\<close> is
  the frame of the entry. If \<open>f\<close> is the zero frame or has refcount above 1, and the
  allocator has a frame \<open>pi_new\<close> to give (page-aligned and in use neither as the page
  table nor as \<open>f\<close>), then \<open>pmap_pagefault\<close> takes \<open>pi_new\<close> from the free list, gives
  it refcount 1 and the contents of \<open>f\<close>, drops one reference of \<open>f\<close> unless \<open>f\<close> is the
  zero frame, and installs \<open>pi_new\<close>. Otherwise the entry keeps the frame \<open>f\<close> and nothing
  but the entry changes. In both cases the new entry has \<open>W\<close> and \<open>P\<close> set and
  \<open>SYS_READ\<close> and \<open>SYS_WRITE\<close> clear, and the function ends in \<open>trap_return\<close> on the
  frame it was given, whose saved instruction pointer is untouched.
\<close>
theorem pagefault_cow:
  assumes win: "VM_USERLO \<le> fva" "fva < VM_USERHI"
    and pde: "peek s (pdir, PDX fva) \<noteq> PTE_ZERO"
    and pte: "pte = (PGADDR (peek s (pdir, PDX fva)), PTX fva)"
    and cow: "peek s pte AND PTE_W = 0" "peek s pte AND SYS_WRITE \<noteq> 0"
    and f: "f = PGADDR (peek s pte)"
  shows "((f = PTE_ZERO \<or> refcount s f > 1) \<and> freelist s = pi_new # rest \<and>
            PGOFF pi_new = 0 \<and> pi_new \<noteq> fst pte \<and> pi_new \<noteq> f \<longrightarrow>
          (\<exists>s'. pmap_pagefault s pdir fva tf = Inr (TrapReturn (tf\<lparr>tf_trapno := T_PGFLT\<rparr>), s') \<and>
                freelist s' = rest \<and>
                mem s' pi_new = mem s f \<and>
                refcount s' pi_new = 1 \<and>
                refcount s' f = (if f = PTE_ZERO then refcount s f else refcount s f - 1) \<and>
                PGADDR (peek s' pte) = pi_new \<and>
                PGOFF (peek s' pte) = (PGOFF (peek s pte) OR PTE_W OR PTE_P) AND NOT SYS_RW \<and>
                peek s' pte AND PTE_W = PTE_W \<and> peek s' pte AND PTE_P = PTE_P \<and>
                peek s' pte AND SYS_RW = 0)) \<and>
         (\<not> (f = PTE_ZERO \<or> refcount s f > 1) \<longrightarrow>
          (\<exists>s'. pmap_pagefault s pdir fva tf = Inr (TrapReturn (tf\<lparr>tf_trapno := T_PGFLT\<rparr>), s') \<and>
                s' = poke s pte (f OR ((PGOFF (peek s pte) OR PTE_W OR PTE_P) AND NOT SYS_RW)) \<and>
                PGADDR (peek s' pte) = f \<and>
                peek s' pte AND PTE_W = PTE_W \<and> peek s' pte AND PTE_P = PTE_P \<and>
                peek s' pte AND SYS_RW = 0))"
proof (intro conjI impI)
  let ?perm = "(PGOFF (peek s pte) OR PTE_W OR PTE_P) AND NOT SYS_RW"
  have walk: "pmap_walk s pdir fva True = Inr (Some pte, s)"
    using walk_present[OF win pde] pte by simp
  have ff: "PGADDR f = f"
    by (simp add: f PGADDR_idem)
  {
    assume h: "(f = PTE_ZERO \<or> refcount s f > 1) \<and> freelist s = pi_new # rest \<and>
            PGOFF pi_new = 0 \<and> pi_new \<noteq> fst pte \<and> pi_new \<noteq> f"
    let ?s2 = "s\<lparr>freelist := rest, nalloc := Suc (nalloc s)\<rparr>"
    let ?s3 = "?s2\<lparr>refcount := (refcount ?s2)(pi_new := 1)\<rparr>"
    let ?s4 = "copy_page ?s3 pi_new f"
    let ?s5 = "if f \<noteq> PTE_ZERO then mem_decref ?s4 f mem_free else ?s4"
    let ?s6 = "poke ?s5 pte pi_new"
    let ?s' = "poke ?s6 pte (pi_new OR ?perm)"
    from h have fl: "freelist s = pi_new # rest" and al: "PGOFF pi_new = 0"
      and ne1: "pi_new \<noteq> fst pte" and ne2: "pi_new \<noteq> f"
      and sh: "f = PTE_ZERO \<or> refcount s f > 1"
      by simp_all
    have p4: "peek ?s4 pte = peek s pte"
      using ne1 by (auto simp add: copy_page_def peek_def)
    have nofree: "f \<noteq> PTE_ZERO \<Longrightarrow> mem_decref ?s4 f mem_free =
        ?s4\<lparr>refcount := (refcount ?s4)(f := refcount s f - 1)\<rparr>"
      using sh ne2 by (auto simp: mem_decref_def Let_def copy_page_def)
    have neq: "pi_new \<noteq> peek s pte"
      using aligned_neq_flagged[OF al cow(2)] .
    have p6: "peek ?s6 pte = pi_new"
      by (simp add: peek_poke)
    have run: "pmap_pagefault s pdir fva tf = Inr (TrapReturn (tf\<lparr>tf_trapno := T_PGFLT\<rparr>), ?s')"
      using win sh cow neq
      by (simp add: pmap_pagefault_def walk Let_def PGOFF_and_flag mem_phys2pi_def
          mem_pi2phys_def mem_pi2ptr_def PGADDR_idem f[symmetric] mem_alloc_def fl p4 p6
          PGADDR_aligned[OF al] al peek_upd peek_poke peek_copy_page ne1 ne1[symmetric]
          not_less[symmetric] ff)
    have pk: "peek ?s' pte = pi_new OR ?perm"
      by (simp add: peek_def poke_def)
    have props: "freelist ?s' = rest \<and> mem ?s' pi_new = mem s f \<and> refcount ?s' pi_new = 1 \<and>
        refcount ?s' f = (if f = PTE_ZERO then refcount s f else refcount s f - 1)"
      using ne1 ne2 nofree
      by (cases "f = PTE_ZERO") (auto simp: poke_def copy_page_def)
    have bits: "PGADDR (pi_new OR ?perm) = pi_new \<and> PGOFF (pi_new OR ?perm) = ?perm \<and>
        (pi_new OR ?perm) AND PTE_W = PTE_W \<and> (pi_new OR ?perm) AND PTE_P = PTE_P \<and>
        (pi_new OR ?perm) AND SYS_RW = 0"
      using al by (auto simp: u32_eq_iff bit_pte)
    show "\<exists>s'. pmap_pagefault s pdir fva tf = Inr (TrapReturn (tf\<lparr>tf_trapno := T_PGFLT\<rparr>), s') \<and>
                freelist s' = rest \<and>
                mem s' pi_new = mem s f \<and>
                refcount s' pi_new = 1 \<and>
                refcount s' f = (if f = PTE_ZERO then refcount s f else refcount s f - 1) \<and>
                PGADDR (peek s' pte) = pi_new \<and>
                PGOFF (peek s' pte) = (PGOFF (peek s pte) OR PTE_W OR PTE_P) AND NOT SYS_RW \<and>
                peek s' pte AND PTE_W = PTE_W \<and> peek s' pte AND PTE_P = PTE_P \<and>
                peek s' pte AND SYS_RW = 0"
      using run props bits pk by (intro exI[of _ ?s']) (simp only: simp_thms)
  }
  {
    assume h: "\<not> (f = PTE_ZERO \<or> refcount s f > 1)"
    let ?s' = "poke s pte (f OR ?perm)"
    have run: "pmap_pagefault s pdir fva tf = Inr (TrapReturn (tf\<lparr>tf_trapno := T_PGFLT\<rparr>), ?s')"
      using win h cow
      by (simp add: pmap_pagefault_def walk Let_def PGOFF_and_flag mem_phys2pi_def
          mem_pi2phys_def PGADDR_idem f[symmetric] ff not_less[symmetric])
    have pk: "peek ?s' pte = f OR ?perm"
      by (simp add: peek_def poke_def)
    have bits: "PGADDR (f OR ?perm) = f \<and>
        (f OR ?perm) AND PTE_W = PTE_W \<and> (f OR ?perm) AND PTE_P = PTE_P \<and>
        (f OR ?perm) AND SYS_RW = 0"
      unfolding f by (auto simp: u32_eq_iff bit_pte)
    show "\<exists>s'. pmap_pagefault s pdir fva tf = Inr (TrapReturn (tf\<lparr>tf_trapno := T_PGFLT\<rparr>), s') \<and>
                s' = poke s pte (f OR ((PGOFF (peek s pte) OR PTE_W OR PTE_P) AND NOT SYS_RW)) \<and>
                PGADDR (peek s' pte) = f \<and>
                peek s' pte AND PTE_W = PTE_W \<and> peek s' pte AND PTE_P = PTE_P \<and>
                peek s' pte AND SYS_RW = 0"
      using run bits pk by (intro exI[of _ ?s']) (simp only: simp_thms)
  }
qed


theorem pagefault_cow_witness:
  "VM_USERLO \<le> 0x40000000 \<and> 0x40000000 < VM_USERHI \<and>
   peek (ex_mapped 0x00300605 2 [ex_fresh]) (ex_pdir, PDX 0x40000000) \<noteq> PTE_ZERO \<and>
   (ex_ptab, 0) = (PGADDR (peek (ex_mapped 0x00300605 2 [ex_fresh]) (ex_pdir, PDX 0x40000000)),
                   PTX 0x40000000) \<and>
   peek (ex_mapped 0x00300605 2 [ex_fresh]) (ex_ptab, 0) AND PTE_W = 0 \<and>
   peek (ex_mapped 0x00300605 2 [ex_fresh]) (ex_ptab, 0) AND SYS_WRITE \<noteq> 0 \<and>
   ex_frame = PGADDR (peek (ex_mapped 0x00300605 2 [ex_fresh]) (ex_ptab, 0)) \<and>
   (ex_frame = PTE_ZERO \<or> refcount (ex_mapped 0x00300605 2 [ex_fresh]) ex_frame > 1) \<and>
   freelist (ex_mapped 0x00300605 2 [ex_fresh]) = ex_fresh # [] \<and>
   PGOFF ex_fresh = 0 \<and> ex_fresh \<noteq> fst (ex_ptab, 0::nat) \<and> ex_fresh \<noteq> ex_frame \<and>
   (\<exists>s'. pmap_pagefault (ex_mapped 0x00300605 2 [ex_fresh]) ex_pdir 0x40000000 ex_tf =
           Inr (TrapReturn (ex_tf\<lparr>tf_trapno := T_PGFLT\<rparr>), s') \<and>
         freelist s' = [] \<and>
         mem s' ex_fresh = mem (ex_mapped 0x00300605 2 [ex_fresh]) ex_frame \<and>
         refcount s' ex_fresh = 1 \<and> refcount s' ex_frame = 1 \<and>
         peek s' (ex_ptab, 0) = 0x00301007) \<and>
   \<not> (ex_frame = PTE_ZERO \<or> refcount (ex_mapped 0x00300605 1 []) ex_frame > 1) \<and>
   pmap_pagefault (ex_mapped 0x00300605 1 []) ex_pdir 0x40000000 ex_tf =
     Inr (TrapReturn (ex_tf\<lparr>tf_trapno := T_PGFLT\<rparr>),
          poke (ex_mapped 0x00300605 1 []) (ex_ptab, 0) 0x00300007)"
proof -
  let ?s = "ex_mapped 0x00300605 2 [ex_fresh]"
  have h1: "VM_USERLO \<le> 0x40000000" and h2: "0x40000000 < VM_USERHI"
    by (simp_all add: consts_defs)
  have h3: "peek ?s (ex_pdir, PDX 0x40000000) \<noteq> PTE_ZERO"
    by (simp add: PDX_ex ex_mapped_peek) (simp add: ex_defs consts_defs)
  have h4: "(ex_ptab, 0) = (PGADDR (peek ?s (ex_pdir, PDX 0x40000000)), PTX 0x40000000)"
    by (simp add: PDX_ex ex_mapped_peek) (simp add: ex_defs consts_defs)
  have h5: "peek ?s (ex_ptab, 0) AND PTE_W = 0" and h6: "peek ?s (ex_ptab, 0) AND SYS_WRITE \<noteq> 0"
    by (simp_all add: ex_mapped_peek) (simp_all add: consts_defs)
  have h7: "ex_frame = PGADDR (peek ?s (ex_ptab, 0))"
    by (simp add: ex_mapped_peek) (simp add: ex_defs consts_defs)
  have h8: "(ex_frame = PTE_ZERO \<or> refcount ?s ex_frame > 1) \<and> freelist ?s = ex_fresh # [] \<and>
            PGOFF ex_fresh = 0 \<and> ex_fresh \<noteq> fst (ex_ptab, 0::nat) \<and> ex_fresh \<noteq> ex_frame"
    by (simp add: ex_mapped_def ex_defs consts_defs)
  have pk: "peek ?s (ex_ptab, 0) = 0x00300605"
    by (simp add: ex_mapped_peek)
  have v: "ex_fresh OR ((PGOFF (0x00300605 :: u32) OR PTE_W OR PTE_P) AND NOT SYS_RW) = 0x00301007"
    by (simp add: ex_defs consts_defs)
  from pagefault_cow [OF h1 h2 h3 h4 h5 h6 h7, of ex_fresh "[]" ex_tf] h8
  obtain s' where r: "pmap_pagefault ?s ex_pdir 0x40000000 ex_tf =
           Inr (TrapReturn (ex_tf\<lparr>tf_trapno := T_PGFLT\<rparr>), s')"
     "freelist s' = []" "mem s' ex_fresh = mem ?s ex_frame" "refcount s' ex_fresh = 1"
     "refcount s' ex_frame = (if ex_frame = PTE_ZERO then refcount ?s ex_frame
                              else refcount ?s ex_frame - 1)"
     "PGADDR (peek s' (ex_ptab, 0)) = ex_fresh"
     "PGOFF (peek s' (ex_ptab, 0)) = (PGOFF (peek ?s (ex_ptab, 0)) OR PTE_W OR PTE_P) AND NOT SYS_RW"
    by blast
  have rc: "refcount s' ex_frame = 1"
    using r(5) by (simp add: ex_mapped_def ex_defs consts_defs)
  have "peek s' (ex_ptab, 0) = PGADDR (peek s' (ex_ptab, 0)) OR PGOFF (peek s' (ex_ptab, 0))"
    by (simp add: PGADDR_PGOFF)
  then have pk': "peek s' (ex_ptab, 0) = 0x00301007"
    using r(6,7) v pk by simp
  let ?t = "ex_mapped 0x00300605 1 []"
  have k3: "peek ?t (ex_pdir, PDX 0x40000000) \<noteq> PTE_ZERO"
    by (simp add: PDX_ex ex_mapped_peek) (simp add: ex_defs consts_defs)
  have k4: "(ex_ptab, 0) = (PGADDR (peek ?t (ex_pdir, PDX 0x40000000)), PTX 0x40000000)"
    by (simp add: PDX_ex ex_mapped_peek) (simp add: ex_defs consts_defs)
  have k5: "peek ?t (ex_ptab, 0) AND PTE_W = 0" and k6: "peek ?t (ex_ptab, 0) AND SYS_WRITE \<noteq> 0"
    by (simp_all add: ex_mapped_peek) (simp_all add: consts_defs)
  have k7: "ex_frame = PGADDR (peek ?t (ex_ptab, 0))"
    by (simp add: ex_mapped_peek) (simp add: ex_defs consts_defs)
  have k8: "\<not> (ex_frame = PTE_ZERO \<or> refcount ?t ex_frame > 1)"
    by (simp add: ex_mapped_def ex_defs consts_defs)
  have w: "ex_frame OR ((PGOFF (peek ?t (ex_ptab, 0)) OR PTE_W OR PTE_P) AND NOT SYS_RW) = 0x00300007"
    by (simp add: ex_mapped_peek) (simp add: ex_defs consts_defs)
  have sole: "pmap_pagefault ?t ex_pdir 0x40000000 ex_tf =
     Inr (TrapReturn (ex_tf\<lparr>tf_trapno := T_PGFLT\<rparr>), poke ?t (ex_ptab, 0) 0x00300007)"
    using pagefault_cow [OF h1 h2 k3 k4 k5 k6 k7, of ex_fresh "[]" ex_tf] k8 w by auto
  show ?thesis
    using h1 h2 h3 h4 h5 h6 h7 h8 r(1-4) rc pk' k8 sole by blast
qed

section \<open>Merging a page word by word\<close>
lemma mem_merged:
  "mem (merged s rpg spg dpg i k) p j =
     (if p = dpg \<and> i \<le> j \<and> j < k \<and> mem s rpg j \<noteq> mem s spg j then mem s spg j else mem s p j)"
  by (simp add: merged_def)

lemma merged_empty: "k \<le> i \<Longrightarrow> merged s rpg spg dpg i k = s"
proof -
  assume "k \<le> i"
  then have "(mem s)(dpg := (\<lambda>j. if i \<le> j \<and> j < k \<and> mem s rpg j \<noteq> mem s spg j
                                  then mem s spg j else mem s dpg j)) = mem s"
    by (auto simp: fun_eq_iff)
  then show ?thesis by (simp add: merged_def)
qed

lemma merged_step:
  assumes "i < k"
  shows "merged (if mem s rpg i \<noteq> mem s spg i then poke s (dpg, i) (mem s spg i) else s)
            rpg spg dpg (Suc i) k = merged s rpg spg dpg i k"
proof -
  have "\<And>p j. mem (merged (if mem s rpg i \<noteq> mem s spg i then poke s (dpg, i) (mem s spg i) else s)
            rpg spg dpg (Suc i) k) p j = mem (merged s rpg spg dpg i k) p j"
    using assms by (auto simp: mem_merged poke_def Suc_le_eq le_less)
  then have "mem (merged (if mem s rpg i \<noteq> mem s spg i then poke s (dpg, i) (mem s spg i) else s)
            rpg spg dpg (Suc i) k) = mem (merged s rpg spg dpg i k)"
    by (simp add: fun_eq_iff)
  then show ?thesis
    by (simp add: merged_def poke_def split: if_splits)
qed

lemma merge_words_prefix:
  assumes "k \<le> 1024"
    and "\<forall>j. i \<le> j \<and> j < k \<longrightarrow>
             \<not> (mem s rpg j \<noteq> mem s spg j \<and> mem s rpg j \<noteq> mem s dpg j \<and> mem s spg j \<noteq> mem s dpg j)"
  shows "merge_words s rpg spg dpg dpte i = merge_words (merged s rpg spg dpg i k) rpg spg dpg dpte (max i k)"
  using assms
proof (induction "k - i" arbitrary: s i)
  case 0
  then have "k \<le> i" by simp
  then show ?case by (simp add: merged_empty max_def)
next
  case (Suc n)
  then have lt: "i < k" and n: "n = k - Suc i" by simp_all
  let ?s1 = "if mem s rpg i \<noteq> mem s spg i then poke s (dpg, i) (mem s spg i) else s"
  have nc: "\<not> (mem s rpg i \<noteq> mem s spg i \<and> mem s rpg i \<noteq> mem s dpg i \<and> mem s spg i \<noteq> mem s dpg i)"
    using Suc.prems lt by auto
  have same: "\<And>p j. Suc i \<le> j \<Longrightarrow> mem ?s1 p j = mem s p j"
    by (simp add: poke_def)
  have step: "merge_words s rpg spg dpg dpte i = merge_words ?s1 rpg spg dpg dpte (Suc i)"
    using lt nc Suc.prems(1) by (subst merge_words.simps) auto
  have "merge_words ?s1 rpg spg dpg dpte (Suc i) =
        merge_words (merged ?s1 rpg spg dpg (Suc i) k) rpg spg dpg dpte (max (Suc i) k)"
  proof (rule Suc.hyps(1)[OF n Suc.prems(1)])
    show "\<forall>j. Suc i \<le> j \<and> j < k \<longrightarrow>
             \<not> (mem ?s1 rpg j \<noteq> mem ?s1 spg j \<and> mem ?s1 rpg j \<noteq> mem ?s1 dpg j \<and>
                mem ?s1 spg j \<noteq> mem ?s1 dpg j)"
      using Suc.prems(2) by (simp add: same)
  qed
  with step lt show ?case
    by (simp add: merged_step[OF lt] max_def)
qed


lemma merge_words_done: "merge_words s rpg spg dpg dpte 1024 = s"
  by (subst merge_words.simps) simp

text \<open>
  Claim C5. Let \<open>s1\<close> be the state after the copy-on-write step at the head of
  \<open>pmap_mergepage\<close>, let \<open>rpg\<close>, \<open>spg\<close> and \<open>dpg\<close> be the reference, source and
  destination pages that the three entries map in \<open>s1\<close>, and let the destination entry
  not lie in the page it maps. Word \<open>j\<close> is in conflict when the three pages hold three
  pairwise different values there.

  Without a conflict, every word of the destination page ends as follows: kept where
  reference and source agree, the source's word otherwise (which writes the source's
  word wherever the destination still agreed with the reference); nothing is logged,
  no refcount changes and the destination entry stays.

  With the first conflict at word \<open>k\<close>, the words before \<open>k\<close> are merged in the same
  way, one warning with the source's, the reference's and the destination's value of
  word \<open>k\<close> is logged, the destination frame loses one reference (and goes to the free
  list when that was its last), the destination entry becomes \<open>PTE_ZERO\<close>, and no word
  from \<open>k\<close> on is changed.
\<close>
theorem mergepage_words:
  assumes cow: "mergepage_cow s dpte = Inr s1"
    and pages: "rpg = PGADDR (peek s1 rpte)" "spg = PGADDR (peek s1 spte)"
      "dpg = PGADDR (peek s1 dpte)"
    and sep: "fst dpte \<noteq> dpg"
  shows
    "((\<forall>j<1024. \<not> (mem s1 rpg j \<noteq> mem s1 spg j \<and> mem s1 rpg j \<noteq> mem s1 dpg j \<and>
                      mem s1 spg j \<noteq> mem s1 dpg j)) \<longrightarrow>
      (\<exists>s'. pmap_mergepage s rpte spte dpte dva = Inr s' \<and>
            (\<forall>j<1024. mem s' dpg j =
               (if mem s1 rpg j = mem s1 spg j then mem s1 dpg j else mem s1 spg j)) \<and>
            conslog s' = conslog s1 \<and> refcount s' = refcount s1 \<and>
            freelist s' = freelist s1 \<and> peek s' dpte = peek s1 dpte)) \<and>
     (k < 1024 \<and>
      (mem s1 rpg k \<noteq> mem s1 spg k \<and> mem s1 rpg k \<noteq> mem s1 dpg k \<and>
       mem s1 spg k \<noteq> mem s1 dpg k) \<and>
      (\<forall>j<k. \<not> (mem s1 rpg j \<noteq> mem s1 spg j \<and> mem s1 rpg j \<noteq> mem s1 dpg j \<and>
                   mem s1 spg j \<noteq> mem s1 dpg j)) \<longrightarrow>
      (\<exists>s'. pmap_mergepage s rpte spte dpte dva = Inr s' \<and>
            conslog s' =
              conslog s1 @ [MergeConflict (mem s1 spg k) (mem s1 rpg k) (mem s1 dpg k)] \<and>
            refcount s' dpg = refcount s1 dpg - 1 \<and>
            freelist s' = (if refcount s1 dpg = 1 then dpg # freelist s1 else freelist s1) \<and>
            peek s' dpte = PTE_ZERO \<and>
            (\<forall>j<k. mem s' dpg j =
               (if mem s1 rpg j = mem s1 spg j then mem s1 dpg j else mem s1 spg j)) \<and>
            (\<forall>j. k \<le> j \<longrightarrow> mem s' dpg j = mem s1 dpg j)))"
proof (intro conjI impI)
  have run: "pmap_mergepage s rpte spte dpte dva = Inr (merge_words s1 rpg spg dpg dpte 0)"
    by (simp add: pmap_mergepage_def cow pages Let_def)
  {
    assume nc: "\<forall>j<1024. \<not> (mem s1 rpg j \<noteq> mem s1 spg j \<and> mem s1 rpg j \<noteq> mem s1 dpg j \<and>
                      mem s1 spg j \<noteq> mem s1 dpg j)"
    let ?s' = "merged s1 rpg spg dpg 0 1024"
    have "merge_words s1 rpg spg dpg dpte 0 = ?s'"
      using merge_words_prefix[of 1024 0 s1 rpg spg dpg dpte] nc
      by (simp add: merge_words_done)
    moreover have "\<forall>j<1024. mem ?s' dpg j =
               (if mem s1 rpg j = mem s1 spg j then mem s1 dpg j else mem s1 spg j)"
      by (simp add: mem_merged)
    moreover have "conslog ?s' = conslog s1 \<and> refcount ?s' = refcount s1 \<and>
            freelist ?s' = freelist s1 \<and> peek ?s' dpte = peek s1 dpte"
      using sep by (simp add: merged_def peek_def)
    ultimately show "\<exists>s'. pmap_mergepage s rpte spte dpte dva = Inr s' \<and>
            (\<forall>j<1024. mem s' dpg j =
               (if mem s1 rpg j = mem s1 spg j then mem s1 dpg j else mem s1 spg j)) \<and>
            conslog s' = conslog s1 \<and> refcount s' = refcount s1 \<and>
            freelist s' = freelist s1 \<and> peek s' dpte = peek s1 dpte"
      using run by simp
  }
  {
    assume h: "k < 1024 \<and>
      (mem s1 rpg k \<noteq> mem s1 spg k \<and> mem s1 rpg k \<noteq> mem s1 dpg k \<and>
       mem s1 spg k \<noteq> mem s1 dpg k) \<and>
      (\<forall>j<k. \<not> (mem s1 rpg j \<noteq> mem s1 spg j \<and> mem s1 rpg j \<noteq> mem s1 dpg j \<and>
                   mem s1 spg j \<noteq> mem s1 dpg j))"
    let ?m = "merged s1 rpg spg dpg 0 k"
    let ?s2 = "cprintf ?m (MergeConflict (mem s1 spg k) (mem s1 rpg k) (mem s1 dpg k))"
    let ?s3 = "mem_decref ?s2 dpg mem_free"
    let ?s' = "poke ?s3 dpte PTE_ZERO"
    have pre: "merge_words s1 rpg spg dpg dpte 0 = merge_words ?m rpg spg dpg dpte k"
      using merge_words_prefix[of k 0 s1 rpg spg dpg dpte] h by simp
    have atk: "mem ?m rpg k = mem s1 rpg k" "mem ?m spg k = mem s1 spg k" "mem ?m dpg k = mem s1 dpg k"
      by (simp_all add: mem_merged)
    have pk: "peek ?s2 dpte = peek s1 dpte"
      using sep by (simp add: peek_upd) (simp add: peek_def merged_def)
    have "PGADDR dpg = dpg"
      by (simp add: pages PGADDR_idem)
    then have fin: "merge_words ?m rpg spg dpg dpte k = ?s'"
      using h by (subst merge_words.simps) (simp add: atk Let_def pk mem_phys2pi_def pages[symmetric])
    have props: "conslog ?s' =
              conslog s1 @ [MergeConflict (mem s1 spg k) (mem s1 rpg k) (mem s1 dpg k)] \<and>
            refcount ?s' dpg = refcount s1 dpg - 1 \<and>
            freelist ?s' = (if refcount s1 dpg = 1 then dpg # freelist s1 else freelist s1) \<and>
            peek ?s' dpte = PTE_ZERO"
      by (simp add: peek_poke) (simp add: poke_def mem_decref_def mem_free_def cprintf_def merged_def Let_def)
    have words: "\<And>j. mem ?s' dpg j = mem ?m dpg j"
      using sep by (simp add: poke_def mem_decref_def mem_free_def cprintf_def Let_def)
    show "\<exists>s'. pmap_mergepage s rpte spte dpte dva = Inr s' \<and>
            conslog s' =
              conslog s1 @ [MergeConflict (mem s1 spg k) (mem s1 rpg k) (mem s1 dpg k)] \<and>
            refcount s' dpg = refcount s1 dpg - 1 \<and>
            freelist s' = (if refcount s1 dpg = 1 then dpg # freelist s1 else freelist s1) \<and>
            peek s' dpte = PTE_ZERO \<and>
            (\<forall>j<k. mem s' dpg j =
               (if mem s1 rpg j = mem s1 spg j then mem s1 dpg j else mem s1 spg j)) \<and>
            (\<forall>j. k \<le> j \<longrightarrow> mem s' dpg j = mem s1 dpg j)"
      apply (rule exI[of _ ?s'])
      apply (simp only: run pre fin props words simp_thms)
      apply (simp add: mem_merged)
      done
  }
qed


lemma ex_merge_peek:
  "peek (ex_merge c) (ex_ptab, 0) = 0x00400007"
  "peek (ex_merge c) (ex_ptab, 1) = 0x00401007"
  "peek (ex_merge c) (ex_ptab, 2) = 0x00402007"
  "peek (ex_merge c) (ex_ptab, Suc 0) = 0x00401007"
  by (simp_all add: peek_def ex_merge_def ex_defs)

lemma ex_merge_mem:
  "mem (ex_merge c) 0x00400000 = (\<lambda>i. 0)"
  "mem (ex_merge c) 0x00401000 = (\<lambda>i. 0)(0 := 0xA, 1 := 0xA, 2 := c)"
  "mem (ex_merge c) 0x00402000 = (\<lambda>i. 0)(2 := 0xB)"
  by (simp_all add: ex_merge_def ex_defs)

lemma ex_merge_cow: "mergepage_cow (ex_merge c) (ex_ptab, 2) = Inr (ex_merge c)"
  by (simp add: mergepage_cow_def ex_merge_peek Let_def) (simp add: consts_defs)

theorem mergepage_words_witness:
  "mergepage_cow (ex_merge 0) (ex_ptab, 2) = Inr (ex_merge 0) \<and>
   0x00400000 = PGADDR (peek (ex_merge 0) (ex_ptab, 0)) \<and>
   0x00401000 = PGADDR (peek (ex_merge 0) (ex_ptab, 1)) \<and>
   0x00402000 = PGADDR (peek (ex_merge 0) (ex_ptab, 2)) \<and>
   fst (ex_ptab, 2::nat) \<noteq> 0x00402000 \<and>
   \<not> (\<exists>j<1024. mem (ex_merge 0) 0x00400000 j \<noteq> mem (ex_merge 0) 0x00401000 j \<and>
                mem (ex_merge 0) 0x00400000 j \<noteq> mem (ex_merge 0) 0x00402000 j \<and>
                mem (ex_merge 0) 0x00401000 j \<noteq> mem (ex_merge 0) 0x00402000 j) \<and>
   (\<exists>s'. pmap_mergepage (ex_merge 0) (ex_ptab, 0) (ex_ptab, 1) (ex_ptab, 2) 0x40002000 = Inr s' \<and>
         mem s' 0x00402000 0 = 0xA \<and> mem s' 0x00402000 1 = 0xA \<and>
         mem s' 0x00402000 2 = 0xB \<and> mem s' 0x00402000 3 = 0 \<and>
         conslog s' = [] \<and> peek s' (ex_ptab, 2) = 0x00402007) \<and>
   mergepage_cow (ex_merge 0xC) (ex_ptab, 2) = Inr (ex_merge 0xC) \<and>
   (2::nat) < 1024 \<and>
   mem (ex_merge 0xC) 0x00400000 2 \<noteq> mem (ex_merge 0xC) 0x00401000 2 \<and>
   mem (ex_merge 0xC) 0x00400000 2 \<noteq> mem (ex_merge 0xC) 0x00402000 2 \<and>
   mem (ex_merge 0xC) 0x00401000 2 \<noteq> mem (ex_merge 0xC) 0x00402000 2 \<and>
   \<not> (\<exists>j<2. mem (ex_merge 0xC) 0x00400000 j \<noteq> mem (ex_merge 0xC) 0x00401000 j \<and>
             mem (ex_merge 0xC) 0x00400000 j \<noteq> mem (ex_merge 0xC) 0x00402000 j \<and>
             mem (ex_merge 0xC) 0x00401000 j \<noteq> mem (ex_merge 0xC) 0x00402000 j) \<and>
   (\<exists>s'. pmap_mergepage (ex_merge 0xC) (ex_ptab, 0) (ex_ptab, 1) (ex_ptab, 2) 0x40002000 = Inr s' \<and>
         conslog s' = [MergeConflict 0xC 0 0xB] \<and>
         refcount s' 0x00402000 = 0 \<and> freelist s' = [0x00402000] \<and>
         peek s' (ex_ptab, 2) = PTE_ZERO \<and>
         mem s' 0x00402000 0 = 0xA \<and> mem s' 0x00402000 1 = 0xA \<and> mem s' 0x00402000 2 = 0xB)"
proof -
  have pg: "0x00400000 = PGADDR (peek (ex_merge c) (ex_ptab, 0))"
    "0x00401000 = PGADDR (peek (ex_merge c) (ex_ptab, 1))"
    "0x00402000 = PGADDR (peek (ex_merge c) (ex_ptab, 2))" for c
    by (simp_all add: ex_merge_peek) (simp_all add: consts_defs)
  have sep: "fst (ex_ptab, 2::nat) \<noteq> 0x00402000"
    by (simp add: ex_defs)
  have nc0: "\<not> (\<exists>j<1024. mem (ex_merge 0) 0x00400000 j \<noteq> mem (ex_merge 0) 0x00401000 j \<and>
                mem (ex_merge 0) 0x00400000 j \<noteq> mem (ex_merge 0) 0x00402000 j \<and>
                mem (ex_merge 0) 0x00401000 j \<noteq> mem (ex_merge 0) 0x00402000 j)"
    by (auto simp: ex_merge_mem)
  have c2: "mem (ex_merge 0xC) 0x00400000 2 \<noteq> mem (ex_merge 0xC) 0x00401000 2 \<and>
   mem (ex_merge 0xC) 0x00400000 2 \<noteq> mem (ex_merge 0xC) 0x00402000 2 \<and>
   mem (ex_merge 0xC) 0x00401000 2 \<noteq> mem (ex_merge 0xC) 0x00402000 2"
    by (simp add: ex_merge_mem)
  have ncC: "\<not> (\<exists>j<2. mem (ex_merge 0xC) 0x00400000 j \<noteq> mem (ex_merge 0xC) 0x00401000 j \<and>
             mem (ex_merge 0xC) 0x00400000 j \<noteq> mem (ex_merge 0xC) 0x00402000 j \<and>
             mem (ex_merge 0xC) 0x00401000 j \<noteq> mem (ex_merge 0xC) 0x00402000 j)"
    by (auto simp: ex_merge_mem)
  have rcfl: "refcount (ex_merge c) 0x00402000 = 1" "freelist (ex_merge c) = []"
    "conslog (ex_merge c) = []" for c
    by (simp_all add: ex_merge_def ex_defs)
  have nc0': "\<forall>j<1024. \<not> (mem (ex_merge 0) 0x00400000 j \<noteq> mem (ex_merge 0) 0x00401000 j \<and>
                mem (ex_merge 0) 0x00400000 j \<noteq> mem (ex_merge 0) 0x00402000 j \<and>
                mem (ex_merge 0) 0x00401000 j \<noteq> mem (ex_merge 0) 0x00402000 j)"
    using nc0 by blast
  have ncC': "2 < (1024::nat) \<and>
      (mem (ex_merge 0xC) 0x00400000 2 \<noteq> mem (ex_merge 0xC) 0x00401000 2 \<and>
       mem (ex_merge 0xC) 0x00400000 2 \<noteq> mem (ex_merge 0xC) 0x00402000 2 \<and>
       mem (ex_merge 0xC) 0x00401000 2 \<noteq> mem (ex_merge 0xC) 0x00402000 2) \<and>
      (\<forall>j<2. \<not> (mem (ex_merge 0xC) 0x00400000 j \<noteq> mem (ex_merge 0xC) 0x00401000 j \<and>
             mem (ex_merge 0xC) 0x00400000 j \<noteq> mem (ex_merge 0xC) 0x00402000 j \<and>
             mem (ex_merge 0xC) 0x00401000 j \<noteq> mem (ex_merge 0xC) 0x00402000 j))"
  proof -
    have "2 < (1024::nat)" by simp
    with c2 ncC show ?thesis by blast
  qed
  from mergepage_words [where k = 0 and dva = "0x40002000",
      OF ex_merge_cow [of 0] pg(1) [of 0] pg(2) [of 0] pg(3) [of 0] sep,
      THEN conjunct1, THEN mp, OF nc0']
  obtain s' where a: "pmap_mergepage (ex_merge 0) (ex_ptab, 0) (ex_ptab, 1) (ex_ptab, 2) 0x40002000 = Inr s'"
    "\<forall>j<1024. mem s' 0x00402000 j =
        (if mem (ex_merge 0) 0x00400000 j = mem (ex_merge 0) 0x00401000 j
         then mem (ex_merge 0) 0x00402000 j else mem (ex_merge 0) 0x00401000 j)"
    "conslog s' = conslog (ex_merge 0)" "peek s' (ex_ptab, 2) = peek (ex_merge 0) (ex_ptab, 2)"
    by (elim exE conjE) (rule that, assumption+)
  have a': "mem s' 0x00402000 0 = 0xA \<and> mem s' 0x00402000 1 = 0xA \<and>
         mem s' 0x00402000 2 = 0xB \<and> mem s' 0x00402000 3 = 0 \<and>
         conslog s' = [] \<and> peek s' (ex_ptab, 2) = 0x00402007"
    using a(2)[rule_format, of 0] a(2)[rule_format, of 1] a(2)[rule_format, of 2]
      a(2)[rule_format, of 3] a(3,4)
    by (simp add: ex_merge_mem ex_merge_peek rcfl)
  from mergepage_words [where k = 2 and dva = "0x40002000",
      OF ex_merge_cow [of "0xC"] pg(1) [of "0xC"] pg(2) [of "0xC"] pg(3) [of "0xC"] sep,
      THEN conjunct2, THEN mp, OF ncC']
  obtain t' where b: "pmap_mergepage (ex_merge 0xC) (ex_ptab, 0) (ex_ptab, 1) (ex_ptab, 2) 0x40002000 = Inr t'"
    "conslog t' = conslog (ex_merge 0xC) @
        [MergeConflict (mem (ex_merge 0xC) 0x00401000 2) (mem (ex_merge 0xC) 0x00400000 2)
           (mem (ex_merge 0xC) 0x00402000 2)]"
    "refcount t' 0x00402000 = refcount (ex_merge 0xC) 0x00402000 - 1"
    "freelist t' = (if refcount (ex_merge 0xC) 0x00402000 = 1
                    then 0x00402000 # freelist (ex_merge 0xC) else freelist (ex_merge 0xC))"
    "peek t' (ex_ptab, 2) = PTE_ZERO"
    "\<forall>j<2. mem t' 0x00402000 j =
        (if mem (ex_merge 0xC) 0x00400000 j = mem (ex_merge 0xC) 0x00401000 j
         then mem (ex_merge 0xC) 0x00402000 j else mem (ex_merge 0xC) 0x00401000 j)"
    "\<forall>j. 2 \<le> j \<longrightarrow> mem t' 0x00402000 j = mem (ex_merge 0xC) 0x00402000 j"
    by (elim exE conjE) (rule that, assumption+)
  have b': "conslog t' = [MergeConflict 0xC 0 0xB] \<and>
         refcount t' 0x00402000 = 0 \<and> freelist t' = [0x00402000] \<and>
         peek t' (ex_ptab, 2) = PTE_ZERO \<and>
         mem t' 0x00402000 0 = 0xA \<and> mem t' 0x00402000 1 = 0xA \<and> mem t' 0x00402000 2 = 0xB"
    using b(2-5) b(6)[rule_format, of 0] b(6)[rule_format, of 1] b(7)[rule_format, of 2]
    by (simp add: ex_merge_mem rcfl)
  show ?thesis
    using ex_merge_cow pg sep nc0 c2 ncC a(1) a' b(1) b' by simp
qed

section \<open>Page arithmetic\<close>
lemma unat_PGOFF: "unat (PGOFF v) = unat v mod 4096"
  by (simp add: PGOFF_def mask12 flip: take_bit_eq_mask) (simp add: unsigned_take_bit_eq take_bit_eq_mod unat_mod_distrib unat_div_distrib)

lemma unat_PTOFF: "unat (PTOFF v) = unat v mod 4194304"
  by (simp add: PTOFF_def mask22 flip: take_bit_eq_mask) (simp add: unsigned_take_bit_eq take_bit_eq_mod unat_mod_distrib unat_div_distrib)

lemma PGOFF_iff: "PGOFF v = 0 \<longleftrightarrow> unat v mod 4096 = 0"
  using unat_PGOFF[of v] by (metis unat_eq_0)

lemma PTOFF_iff: "PTOFF v = 0 \<longleftrightarrow> unat v mod 4194304 = 0"
  using unat_PTOFF[of v] by (metis unat_eq_0)

lemma unat_lt32: "unat (v::u32) < 4294967296"
  using unsigned_less[of v, where 'a=nat] by simp

lemma PDX_nat: "PDX v = unat v div 4194304"
proof -
  have "unat (drop_bit 22 v AND 0x3FF) = (unat v div 4194304) mod 1024"
    by (simp add: mask10 flip: take_bit_eq_mask)
       (simp add: unsigned_take_bit_eq take_bit_eq_mod unsigned_drop_bit_eq drop_bit_eq_div unat_mod_distrib unat_div_distrib)
  moreover have "unat v div 4194304 < 1024"
    using unat_lt32[of v] by simp
  ultimately show ?thesis by (simp add: PDX_def)
qed

lemma PTX_nat: "PTX v = unat v div 4096 mod 1024"
  by (simp add: PTX_def mask10 flip: take_bit_eq_mask)
     (simp add: unsigned_take_bit_eq take_bit_eq_mod unsigned_drop_bit_eq drop_bit_eq_div unat_mod_distrib unat_div_distrib)


lemma aligned_step_nat:
  fixes a b n :: nat
  assumes "a mod n = 0" "b mod n = 0" "a < b"
  shows "a + n \<le> b"
proof -
  from assms(1,2) have "n dvd a" "n dvd b"
    by (simp_all add: dvd_eq_mod_eq_0)
  then obtain k m where k: "a = n * k" and m: "b = n * m"
    unfolding dvd_def by blast
  with assms(3) have "k < m" by simp
  then have "Suc k \<le> m" by simp
  then have "n * Suc k \<le> n * m" by (rule mult_le_mono2)
  with k m show ?thesis by simp
qed

lemma roundup_nat:
  fixes x n :: nat
  assumes "0 < n"
  shows "(x + (n - 1)) - (x + (n - 1)) mod n = (if x mod n = 0 then x else x - x mod n + n)"
proof -
  define q r where "q = x div n" and "r = x mod n"
  have x: "x = q * n + r"
    unfolding q_def r_def by (rule div_mult_mod_eq[symmetric])
  have r: "r < n"
    using assms by (simp add: r_def)
  show ?thesis
  proof (cases "r = 0")
    case True
    have xm: "x mod n = 0" using True by (simp add: r_def)
    have xq: "x = q * n" using x True by simp
    have e: "x + (n - 1) = q * n + (n - 1)" by (subst xq) simp
    have "(q * n + (n - 1)) mod n = (n - 1) mod n" by (rule mod_mult_self3)
    also have "\<dots> = n - 1" using assms by simp
    finally have "(x + (n - 1)) - (x + (n - 1)) mod n = q * n"
      unfolding e by simp
    with xq have "(x + (n - 1)) - (x + (n - 1)) mod n = x" by simp
    with xm show ?thesis by simp
  next
    case False
    have xm: "x mod n \<noteq> 0" using False by (simp add: r_def)
    have r1: "r = Suc (r - 1)" using False by simp
    have "x + (n - 1) = q * n + Suc (r - 1) + (n - 1)" using x r1 by simp
    also have "\<dots> = Suc q * n + (r - 1)" using assms by simp
    finally have e: "x + (n - 1) = Suc q * n + (r - 1)" .
    have "(Suc q * n + (r - 1)) mod n = (r - 1) mod n" by (rule mod_mult_self3)
    also have "\<dots> = r - 1" using r by simp
    finally have a: "(x + (n - 1)) - (x + (n - 1)) mod n = Suc q * n"
      unfolding e by simp
    have "x - r = q * n" using x by simp
    then have "x - x mod n + n = Suc q * n" by (simp add: r_def)
    with a xm show ?thesis by simp
  qed
qed

lemma unat_add_page:
  assumes "unat (a::u32) + n < 4294967296"
  shows "unat (a + of_nat n) = unat a + n"
proof -
  have "unat (a + of_nat n) = (unat a + n mod 4294967296) mod 4294967296"
    by (simp add: unat_word_ariths unat_of_nat)
  with assms show ?thesis by simp
qed

lemma unat_ROUNDDOWN: "unat (ROUNDDOWN a PTSIZE) = unat a - unat a mod 4194304"
proof -
  have "a mod PTSIZE \<le> a"
    by (simp add: word_le_nat_alt unat_mod_distrib)
  then show ?thesis
    by (simp add: ROUNDDOWN_def unat_sub unat_mod_distrib PTSIZE_def)
qed

lemma unat_ROUNDUP:
  assumes "unat a + 4194303 < 4294967296"
  shows "unat (ROUNDUP a PTSIZE) = (unat a + 4194303) - (unat a + 4194303) mod 4194304"
proof -
  have e: "a + PTSIZE - 1 = a + 4194303"
    by (simp add: PTSIZE_def)
  have u: "unat (a + 4194303) = unat a + 4194303"
    using unat_add_page[of a 4194303] assms by simp
  show ?thesis
    unfolding ROUNDUP_def e unat_ROUNDDOWN u ..
qed

lemma HI_nat: "unat VM_USERHI = 4026531840" and LO_nat: "unat VM_USERLO = 1073741824"
  by (simp_all add: VM_USERHI_def VM_USERLO_def)

lemma below_ROUNDUP:
  assumes "va \<le> VM_USERHI"
  shows "va < ROUNDUP va PTSIZE \<longleftrightarrow> PTOFF va \<noteq> 0"
proof -
  define r where "r = unat va mod 4194304"
  have b: "unat va \<le> 4026531840"
    using assms by (simp add: word_le_nat_alt HI_nat)
  then have "unat (ROUNDUP va PTSIZE) = (unat va + 4194303) - (unat va + 4194303) mod 4194304"
    by (intro unat_ROUNDUP) simp
  also have "\<dots> = (if r = 0 then unat va else unat va - r + 4194304)"
    using roundup_nat[of 4194304 "unat va"] by (simp add: r_def)
  finally have u: "unat (ROUNDUP va PTSIZE) = (if r = 0 then unat va else unat va - r + 4194304)" .
  have "r < 4194304" "r \<le> unat va"
    by (simp_all add: r_def)
  then have "unat va < unat (ROUNDUP va PTSIZE) \<longleftrightarrow> r \<noteq> 0"
    unfolding u by auto
  then show ?thesis
    by (simp add: word_less_nat_alt PTOFF_iff r_def)
qed

lemma ROUNDDOWN_le: "ROUNDDOWN a PTSIZE \<le> a"
  by (simp add: word_le_nat_alt unat_ROUNDDOWN)

lemma next_page:
  fixes va toppage :: u32
  assumes "PGOFF va = 0" "PGOFF toppage = 0" "va < toppage"
  shows "unat (va + PAGESIZE) = unat va + 4096" "va + PAGESIZE \<le> toppage"
    "PGOFF (va + PAGESIZE) = 0" "va < va + PAGESIZE"
proof -
  have a: "unat va mod 4096 = 0" "unat toppage mod 4096 = 0" "unat va < unat toppage"
    using assms by (simp_all add: PGOFF_iff word_less_nat_alt)
  have le: "unat va + 4096 \<le> unat toppage"
    by (rule aligned_step_nat[OF a])
  have "unat va + 4096 < 4294967296"
    using le unat_lt32[of toppage] by simp
  from unat_add_page[OF this] show u: "unat (va + PAGESIZE) = unat va + 4096"
    by (simp add: PAGESIZE_def)
  show "va + PAGESIZE \<le> toppage"
    using le u by (simp add: word_le_nat_alt)
  show "PGOFF (va + PAGESIZE) = 0"
    using a u by (simp add: PGOFF_iff)
  show "va < va + PAGESIZE"
    using u by (simp add: word_less_nat_alt)
qed

section \<open>Removing one page, and inserting a frame where it already is\<close>
lemma in_window_nat:
  "VM_USERLO \<le> v \<and> v < VM_USERHI \<longleftrightarrow> 1073741824 \<le> unat v \<and> unat v < 4026531840"
  by (simp add: word_le_nat_alt word_less_nat_alt HI_nat LO_nat)

lemma remove_asserts:
  fixes va sz :: u32
  assumes "PGOFF sz = 0" "VM_USERLO \<le> va" "va < VM_USERHI" "sz \<le> VM_USERHI - va" "PGOFF va = 0"
  shows "unat (va + sz) = unat va + unat sz" "va + sz \<le> VM_USERHI" "PGOFF (va + sz) = 0"
    "va \<le> va + sz"
proof -
  have a: "unat va < 4026531840" "unat sz \<le> 4026531840 - unat va"
    using assms(3,4) by (simp_all add: word_le_nat_alt word_less_nat_alt HI_nat unat_sub)
  then have "unat va + unat sz < 4294967296" by simp
  then show u: "unat (va + sz) = unat va + unat sz"
    using unat_add_page[of va "unat sz"] by simp
  show "va + sz \<le> VM_USERHI"
    using a u by (simp add: word_le_nat_alt HI_nat)
  show "PGOFF (va + sz) = 0"
    using assms(1,5) u mod_add_eq[of "unat va" 4096 "unat sz"] by (simp add: PGOFF_iff)
  show "va \<le> va + sz"
    using u by (simp add: word_le_nat_alt)
qed

lemma unat_add_PTSIZE:
  assumes "va \<le> VM_USERHI"
  shows "unat (va + PTSIZE) = unat va + 4194304"
proof -
  have "unat va + 4194304 < 4294967296"
    using assms by (simp add: word_le_nat_alt HI_nat)
  from unat_add_page[OF this] show ?thesis
    by (simp add: PTSIZE_def)
qed

lemma no_bulk:
  assumes "unat toppage < unat va + 4194304" "va \<le> VM_USERHI"
  shows "remove_bulk s pdir va toppage = Some (s, va)"
proof -
  have "unat (ROUNDDOWN toppage PTSIZE) \<le> unat toppage"
    by (simp add: unat_ROUNDDOWN)
  then have "\<not> va + PTSIZE \<le> ROUNDDOWN toppage PTSIZE"
    using assms by (simp add: word_le_nat_alt unat_add_PTSIZE)
  then show ?thesis
    by (subst remove_bulk.simps) simp
qed

lemma head_done: "\<not> va < toppage \<Longrightarrow> remove_head s pdir va toppage = Some (Inr (s, va))"
  by (subst remove_head.simps) simp

lemma tail_done: "\<not> va < toppage \<Longrightarrow> remove_tail s pdir va toppage = Some (Inr s)"
  by (subst remove_tail.simps) simp

lemma remove_one_page:
  assumes "VM_USERLO \<le> va" "va < VM_USERHI" "PGOFF va = 0"
  shows "pmap_remove s pdir va PAGESIZE = remove_pte s pdir va"
proof -
  let ?top = "va + PAGESIZE"
  have "unat va mod 4096 = 0" "(4026531840::nat) mod 4096 = 0" "unat va < 4026531840"
    using assms(2,3) by (simp_all add: PGOFF_iff word_less_nat_alt HI_nat)
  then have "unat va + 4096 \<le> 4026531840"
    by (rule aligned_step_nat)
  then have sz: "PGOFF PAGESIZE = 0" "PAGESIZE \<le> VM_USERHI - va"
    using assms(2)
    by (simp_all add: PGOFF_iff word_le_nat_alt word_less_nat_alt unat_sub HI_nat PAGESIZE_def)
  note ra = remove_asserts[OF sz(1) assms(1,2) sz(2) assms(3)]
  have u: "unat ?top = unat va + 4096"
    using ra(1) by (simp add: PAGESIZE_def)
  have lt: "va < ?top"
    using u by (simp add: word_less_nat_alt)
  have vaHI: "va \<le> VM_USERHI"
    using assms(2) by simp
  have asserts: "pmap_remove s pdir va PAGESIZE =
        (case remove_head s pdir va ?top of
          None \<Rightarrow> Inl Diverges
        | Some (Inl e) \<Rightarrow> Inl e
        | Some (Inr (s1, va1)) \<Rightarrow>
            (case remove_bulk s1 pdir va1 ?top of
               None \<Rightarrow> Inl Diverges
             | Some (s2, va2) \<Rightarrow>
                 (case remove_tail s2 pdir va2 ?top of
                    None \<Rightarrow> Inl Diverges
                  | Some r \<Rightarrow> r)))"
    using assms sz by (simp add: pmap_remove_def Let_def)
  show ?thesis
  proof (cases "PTOFF va = 0")
    case True
    then have h: "remove_head s pdir va ?top = Some (Inr (s, va))"
      using below_ROUNDUP[OF vaHI] by (subst remove_head.simps) simp
    have b: "remove_bulk s pdir va ?top = Some (s, va)"
      using u vaHI by (intro no_bulk) simp_all
    have t: "remove_tail s pdir va ?top = Some (remove_pte s pdir va)"
      using lt
      by (subst remove_tail.simps) (simp add: tail_done split: sum.splits)
    show ?thesis
      by (simp add: asserts h b t)
  next
    case False
    then have h: "remove_head s pdir va ?top =
        (case remove_pte s pdir va of Inl e \<Rightarrow> Some (Inl e) | Inr s1 \<Rightarrow> Some (Inr (s1, ?top)))"
      using below_ROUNDUP[OF vaHI] lt
      by (subst remove_head.simps) (simp add: head_done split: sum.splits)
    have b: "remove_bulk s1 pdir ?top ?top = Some (s1, ?top)" for s1
      using ra(2) by (intro no_bulk) simp_all
    show ?thesis
      by (simp add: asserts h b tail_done split: sum.splits)
  qed
qed


lemma incref_decref:
  assumes "0 < refcount s f"
  shows "mem_decref (mem_incref s f) f mem_free = s"
proof -
  have "(refcount s)(f := refcount s f) = refcount s"
    by (rule fun_upd_triv)
  then show ?thesis
    using assms by (simp add: mem_decref_def mem_incref_def Let_def)
qed

lemma poke_poke: "poke (poke s p v) p w = poke s p w"
  by (simp add: poke_def)

text \<open>
  Claim C3. Let \<open>va\<close> be a page-aligned address of the user window whose page table
  exists and whose entry \<open>pte\<close> maps the frame \<open>f\<close>, a frame other than the zero frame
  that holds at least the one reference of this mapping. Then
  \<open>pmap_insert(pdir, f, va, perm)\<close> succeeds and returns \<open>pte\<close>; the refcount of every
  frame, that of \<open>f\<close> among them, and the free list are as before, so \<open>f\<close> was not freed
  even if this was its only reference; the only change is the entry, now
  \<open>f | perm | PTE_P\<close>. The increment comes first: the \<open>pmap_remove\<close> inside takes the
  count from \<open>n + 1\<close> back to \<open>n\<close> and never sees 0.
\<close>
theorem insert_same_frame:
  assumes win: "VM_USERLO \<le> va" "va < VM_USERHI" and al: "PGOFF va = 0"
    and pde: "peek s (pdir, PDX va) \<noteq> PTE_ZERO"
    and pte: "pte = (PGADDR (peek s (pdir, PDX va)), PTX va)"
    and mapped: "PGADDR (peek s pte) = f" and nz: "f \<noteq> PTE_ZERO"
    and live: "0 < refcount s f"
  shows "\<exists>s'. pmap_insert s pdir f va perm = Inr (Some pte, s') \<and>
              refcount s' = refcount s \<and> freelist s' = freelist s \<and>
              peek s' pte = f OR perm OR PTE_P \<and>
              s' = poke s pte (f OR perm OR PTE_P)"
proof -
  let ?s2 = "mem_incref s f"
  have ff: "PGADDR f = f"
    using mapped PGADDR_idem by metis
  have walk: "pmap_walk s pdir va True = Inr (Some pte, s)"
    using walk_present[OF win pde] pte by simp
  have pde2: "peek ?s2 (pdir, PDX va) \<noteq> PTE_ZERO"
    using pde by (simp add: peek_upd)
  have walk2: "pmap_walk ?s2 pdir va True = Inr (Some pte, ?s2)"
    using walk_present[OF win pde2] pte by (simp add: peek_upd)
  have nzp: "peek ?s2 pte \<noteq> PTE_ZERO"
    using mapped nz by (auto simp: peek_upd PGADDR_PTE_ZERO)
  have rm: "remove_pte ?s2 pdir va = Inr (poke s pte PTE_ZERO)"
    using pde2 mapped nz
    by (simp add: remove_pte_def walk2 Let_def peek_upd mem_phys2pi_def ff
        incref_decref[OF live])
  have "pmap_insert s pdir f va perm = Inr (Some pte, poke s pte (f OR perm OR PTE_P))"
    using nzp
    by (simp add: pmap_insert_def walk Let_def remove_one_page[OF win al] rm poke_poke
        mem_pi2phys_def)
  then show ?thesis
    by (simp add: peek_poke) (simp add: poke_def)
qed

theorem insert_same_frame_witness:
  "VM_USERLO \<le> 0x40000000 \<and> 0x40000000 < VM_USERHI \<and> PGOFF 0x40000000 = 0 \<and>
   peek (ex_mapped 0x00300005 1 []) (ex_pdir, PDX 0x40000000) \<noteq> PTE_ZERO \<and>
   (ex_ptab, 0) = (PGADDR (peek (ex_mapped 0x00300005 1 []) (ex_pdir, PDX 0x40000000)),
                   PTX 0x40000000) \<and>
   PGADDR (peek (ex_mapped 0x00300005 1 []) (ex_ptab, 0)) = ex_frame \<and>
   ex_frame \<noteq> PTE_ZERO \<and> 0 < refcount (ex_mapped 0x00300005 1 []) ex_frame \<and>
   pmap_insert (ex_mapped 0x00300005 1 []) ex_pdir ex_frame 0x40000000 PTE_U =
     Inr (Some (ex_ptab, 0), ex_mapped 0x00300005 1 []) \<and>
   refcount (ex_mapped 0x00300005 1 []) ex_frame = 1 \<and>
   freelist (ex_mapped 0x00300005 1 []) = []"
proof -
  let ?s = "ex_mapped 0x00300005 1 []"
  have h1: "VM_USERLO \<le> 0x40000000" and h2: "0x40000000 < VM_USERHI"
    and h3: "PGOFF 0x40000000 = 0"
    by (simp_all add: consts_defs)
  have h4: "peek ?s (ex_pdir, PDX 0x40000000) \<noteq> PTE_ZERO"
    by (simp add: PDX_ex ex_mapped_peek) (simp add: ex_defs consts_defs)
  have h5: "(ex_ptab, 0) = (PGADDR (peek ?s (ex_pdir, PDX 0x40000000)), PTX 0x40000000)"
    by (simp add: PDX_ex ex_mapped_peek) (simp add: ex_defs consts_defs)
  have h6: "PGADDR (peek ?s (ex_ptab, 0)) = ex_frame"
    by (simp add: ex_mapped_peek) (simp add: ex_defs consts_defs)
  have h7: "ex_frame \<noteq> PTE_ZERO" and h8: "0 < refcount ?s ex_frame"
    by (simp_all add: ex_mapped_def ex_defs consts_defs)
  have v: "ex_frame OR PTE_U OR PTE_P = 0x00300005"
    by (simp add: ex_defs consts_defs)
  have same: "poke ?s (ex_ptab, 0) 0x00300005 = ?s"
  proof -
    have "(mem ?s)(ex_ptab := (mem ?s ex_ptab)(0 := 0x00300005)) = mem ?s"
      by (auto simp: fun_eq_iff ex_mapped_def ex_defs)
    then show ?thesis by (simp add: poke_def)
  qed
  have rf: "refcount ?s ex_frame = 1 \<and> freelist ?s = []"
    by (simp add: ex_mapped_def ex_defs)
  from insert_same_frame [OF h1 h2 h3 h4 h5 h6 h7 h8, of PTE_U]
  have "pmap_insert ?s ex_pdir ex_frame 0x40000000 PTE_U = Inr (Some (ex_ptab, 0), ?s)"
    by (simp add: v same)
  then show ?thesis
    using h1 h2 h3 h4 h5 h6 h7 h8 rf by simp
qed

section \<open>Copying a range of page tables\<close>
lemma and_PTE_W_zero: "e AND PTE_W = 0 \<longleftrightarrow> \<not> bit e 1"
proof
  assume "e AND PTE_W = 0"
  then have "bit (e AND PTE_W) 1 = bit (0::u32) 1" by simp
  then show "\<not> bit e 1" by (simp add: bit_pte)
next
  assume "\<not> bit e 1"
  then show "e AND PTE_W = 0" by (auto simp: u32_eq_iff bit_pte)
qed

lemma and_SYS_WRITE_zero: "e AND SYS_WRITE = 0 \<longleftrightarrow> \<not> bit e 10"
proof
  assume "e AND SYS_WRITE = 0"
  then have "bit (e AND SYS_WRITE) 10 = bit (0::u32) 10" by simp
  then show "\<not> bit e 10" by (simp add: bit_pte)
next
  assume "\<not> bit e 10"
  then show "e AND SYS_WRITE = 0" by (auto simp: u32_eq_iff bit_pte)
qed

lemma cow_entry_code:
  assumes "PGADDR e \<noteq> PTE_ZERO"
  shows "(let perm = PGOFF e OR SYS_READ;
              perm = (if perm AND PTE_W \<noteq> 0 \<or> perm AND SYS_WRITE \<noteq> 0
                      then (perm AND NOT PTE_W) OR SYS_WRITE else perm)
          in PGADDR e OR perm) = cow_entry e"
proof -
  have w: "(PGOFF e OR SYS_READ) AND PTE_W = e AND PTE_W"
    and sw: "(PGOFF e OR SYS_READ) AND SYS_WRITE = e AND SYS_WRITE"
    by (auto simp: u32_eq_iff bit_pte)
  have z: "e AND (PTE_W OR SYS_WRITE) = 0 \<longleftrightarrow> e AND PTE_W = 0 \<and> e AND SYS_WRITE = 0"
    by (auto simp: u32_eq_iff bit_pte)
  show ?thesis
  proof (cases "e AND PTE_W = 0 \<and> e AND SYS_WRITE = 0")
    case True
    then have "bit e 1 = False" "bit e 10 = False"
      by (simp_all add: and_PTE_W_zero and_SYS_WRITE_zero)
    then have "PGADDR e OR (PGOFF e OR SYS_READ) = (e AND NOT PTE_W) OR SYS_READ OR 0"
      by (auto simp: u32_eq_iff bit_pte)
    with True assms z show ?thesis
      by (simp add: cow_entry_def w sw Let_def)
  next
    case False
    have "PGADDR e OR (((PGOFF e OR SYS_READ) AND NOT PTE_W) OR SYS_WRITE) =
          (e AND NOT PTE_W) OR SYS_READ OR SYS_WRITE"
      by (auto simp: u32_eq_iff bit_pte)
    with False assms z show ?thesis
      by (auto simp add: cow_entry_def w sw Let_def)
  qed
qed

lemma PGADDR_cow_entry: "PGADDR (cow_entry e) = PGADDR e"
  by (auto simp: cow_entry_def u32_eq_iff bit_pte)


lemma copy_entry_eq:
  "copy_entry tab i s =
     (if PGADDR (mem s tab i) = PTE_ZERO then s
      else mem_incref (poke s (tab, i) (cow_entry (mem s tab i))) (PGADDR (mem s tab i)))"
proof (cases "PGADDR (mem s tab i) = PTE_ZERO")
  case True
  then show ?thesis
    by (simp add: copy_entry_def peek_def PGADDR_PTE_ZERO)
next
  case False
  have "copy_entry tab i s =
        (let s1 = poke s (tab, i) (cow_entry (mem s tab i))
         in mem_incref s1 (mem_phys2pi (PGADDR (peek s1 (tab, i)))))"
    using False cow_entry_code[OF False]
    by (simp add: copy_entry_def peek_def PGADDR_PTE_ZERO Let_def)
  then show ?thesis
    using False
    by (simp add: Let_def peek_poke mem_phys2pi_def PGADDR_cow_entry PGADDR_idem)
qed

lemma nrefs_Suc:
  "nrefs s tab (Suc n) f = nrefs s tab n f + (if PGADDR (mem s tab n) = f then 1 else 0)"
  by (simp add: nrefs_def)

lemma copied_0: "copied s tab 0 = s"
proof -
  have "(mem s)(tab := (\<lambda>i. mem s tab i)) = mem s"
    by (rule fun_upd_triv)
  moreover have "(\<lambda>f. if f = PTE_ZERO then refcount s f else refcount s f + nrefs s tab 0 f) = refcount s"
    by (auto simp: fun_eq_iff nrefs_def)
  ultimately show ?thesis
    by (simp add: copied_def)
qed

lemma copied_fields:
  "mem (copied s tab n) p i =
     (if p = tab \<and> i < n then cow_entry (mem s tab i) else mem s p i)"
  "refcount (copied s tab n) f =
     (if f = PTE_ZERO then refcount s f else refcount s f + nrefs s tab n f)"
  "freelist (copied s tab n) = freelist s"
  "conslog (copied s tab n) = conslog s"
  "nalloc (copied s tab n) = nalloc s"
  by (simp_all add: copied_def)

lemma copy_entry_copied: "copy_entry tab n (copied s tab n) = copied s tab (Suc n)"
proof (rule kstate.equality)
  let ?t = "copied s tab n"
  have e: "mem ?t tab n = mem s tab n"
    by (simp add: copied_fields)
  show "mem (copy_entry tab n ?t) = mem (copied s tab (Suc n))"
    by (auto simp: fun_eq_iff copy_entry_eq e copied_fields mem_incref_def poke_def
        cow_entry_def less_Suc_eq)
  show "refcount (copy_entry tab n ?t) = refcount (copied s tab (Suc n))"
    by (auto simp: fun_eq_iff copy_entry_eq e copied_fields mem_incref_def poke_def nrefs_Suc)
  show "freelist (copy_entry tab n ?t) = freelist (copied s tab (Suc n))"
    "conslog (copy_entry tab n ?t) = conslog (copied s tab (Suc n))"
    "nalloc (copy_entry tab n ?t) = nalloc (copied s tab (Suc n))"
    by (simp_all add: copy_entry_eq e copied_fields mem_incref_def poke_def)
qed simp

lemma copy_fold: "fold (copy_entry tab) [0..<n] s = copied s tab n"
proof (induction n)
  case 0
  show ?case by (simp add: copied_0)
next
  case (Suc n)
  have "fold (copy_entry tab) [0..<Suc n] s = copy_entry tab n (fold (copy_entry tab) [0..<n] s)"
    by simp
  then show ?case
    by (simp only: Suc copy_entry_copied)
qed


lemma aligned_PT_step:
  fixes sva endva :: u32
  assumes "PTOFF sva = 0" "PTOFF endva = 0" "sva < endva"
  shows "unat (sva + PTSIZE) = unat sva + 4194304" "sva + PTSIZE \<le> endva"
    "PTOFF (sva + PTSIZE) = 0"
proof -
  have a: "unat sva mod 4194304 = 0" "unat endva mod 4194304 = 0" "unat sva < unat endva"
    using assms by (simp_all add: PTOFF_iff word_less_nat_alt)
  have le: "unat sva + 4194304 \<le> unat endva"
    by (rule aligned_step_nat[OF a])
  have "unat sva + 4194304 < 4294967296"
    using le unat_lt32[of endva] by simp
  from unat_add_page[OF this] show u: "unat (sva + PTSIZE) = unat sva + 4194304"
    by (simp add: PTSIZE_def)
  show "sva + PTSIZE \<le> endva"
    using le u by (simp add: word_le_nat_alt)
  show "PTOFF (sva + PTSIZE) = 0"
    using a u by (simp add: PTOFF_iff)
qed

lemma copy_loop_eq:
  assumes "PTOFF sva = 0" "PTOFF endva = 0" "sva \<le> endva"
    and "n = (unat endva - unat sva) div 4194304"
  shows "copy_loop s sva endva spentry dpentry = Some (copy_pdes n s spentry dpentry)"
  using assms
proof (induction n arbitrary: s sva spentry dpentry)
  case 0
  have "unat sva mod 4194304 = 0" "unat endva mod 4194304 = 0"
    using 0 by (simp_all add: PTOFF_iff)
  then have "\<not> unat sva < unat endva"
    using aligned_step_nat[of "unat sva" 4194304 "unat endva"] 0(4) by auto
  then have "\<not> sva < endva"
    by (simp add: word_less_nat_alt)
  then show ?case
    by (subst copy_loop.simps) simp
next
  case (Suc n)
  have lt: "sva < endva"
  proof (rule ccontr)
    assume "\<not> sva < endva"
    with Suc.prems(3) have "sva = endva" by simp
    with Suc.prems(4) show False by simp
  qed
  note st = aligned_PT_step[OF Suc.prems(1,2) lt]
  have n: "n = (unat endva - unat (sva + PTSIZE)) div 4194304"
    using Suc.prems(4) st(1) by simp
  have rec: "copy_loop s1 (sva + PTSIZE) endva sp dp = Some (copy_pdes n s1 sp dp)" for s1 sp dp
    by (rule Suc.IH[OF st(3) Suc.prems(2) st(2) n])
  show ?case
    using lt by (subst copy_loop.simps) (simp add: rec split: sum.splits)
qed

lemma pmap_copy_eq:
  assumes "PTOFF sva = 0" "PTOFF dva = 0" "PTOFF sz = 0"
    and "VM_USERLO \<le> sva" "sva < VM_USERHI" "VM_USERLO \<le> dva" "dva < VM_USERHI"
    and "sz \<le> VM_USERHI - sva" "sz \<le> VM_USERHI - dva"
  shows "pmap_copy s spdir sva dpdir dva sz =
           copy_pdes (unat sz div 4194304) s (spdir, PDX sva) (dpdir, PDX dva)"
proof -
  have a: "unat sva < 4026531840" "unat sz \<le> 4026531840 - unat sva"
    using assms(5,8) by (simp_all add: word_le_nat_alt word_less_nat_alt HI_nat unat_sub)
  then have "unat sva + unat sz < 4294967296" by simp
  then have u: "unat (sva + sz) = unat sva + unat sz"
    using unat_add_page[of sva "unat sz"] by simp
  have e: "PTOFF (sva + sz) = 0"
    using assms(1,3) u mod_add_eq[of "unat sva" 4194304 "unat sz"] by (simp add: PTOFF_iff)
  have le: "sva \<le> sva + sz"
    using u by (simp add: word_le_nat_alt)
  have "copy_loop s sva (sva + sz) (spdir, PDX sva) (dpdir, PDX dva) =
        Some (copy_pdes (unat sz div 4194304) s (spdir, PDX sva) (dpdir, PDX dva))"
    by (rule copy_loop_eq[OF assms(1) e le]) (simp add: u)
  then show ?thesis
    using assms by (simp add: pmap_copy_def)
qed


lemma peek_copied:
  "fst q \<noteq> tab \<Longrightarrow> peek (copied s tab n) q = peek s q"
  by (simp add: peek_def copied_fields)

lemma copy_pde_zero:
  "PGADDR (peek s spentry) = PTE_ZERO \<Longrightarrow>
   copy_pde s spentry dpentry = Inr (True, poke s dpentry (peek s spentry))"
  by (simp add: copy_pde_def)

lemma copy_pde_fresh:
  assumes nz: "PGADDR (peek s spentry) \<noteq> PTE_ZERO" and tab: "tab = PGADDR (peek s spentry)"
    and fl: "freelist s = pi # rest" and al: "PGOFF pi = 0"
    and sep: "pi \<noteq> tab" "pi \<noteq> fst spentry" "tab \<noteq> fst spentry" "spentry \<noteq> dpentry"
  shows "copy_pde s spentry dpentry =
     Inr (True,
       (poke (copy_page (copied (s\<lparr>freelist := rest, nalloc := Suc (nalloc s)\<rparr>) tab 1024) pi tab)
          dpentry (pi OR PGOFF (peek s spentry)))
       \<lparr>refcount :=
          (refcount (copied (s\<lparr>freelist := rest, nalloc := Suc (nalloc s)\<rparr>) tab 1024))(pi := 1)\<rparr>)"
proof -
  let ?s1 = "s\<lparr>freelist := rest, nalloc := Suc (nalloc s)\<rparr>"
  let ?s2 = "copied ?s1 tab 1024"
  let ?s3 = "copy_page ?s2 pi tab"
  let ?s4 = "poke ?s3 dpentry (pi OR PGOFF (peek s spentry))"
  have p1: "peek ?s1 spentry = peek s spentry"
    by (simp add: peek_upd)
  have p2: "peek ?s2 spentry = peek s spentry"
    using sep(3) by (simp add: peek_copied peek_upd)
  have p3: "peek ?s3 spentry = peek s spentry"
    using sep(2) p2 by (simp add: peek_copy_page)
  have p4: "peek ?s4 spentry = peek s spentry"
    using sep(4) p3 by (simp add: peek_poke)
  have d4: "peek ?s4 dpentry = pi OR PGOFF (peek s spentry)"
    by (simp add: peek_poke)
  have "PGADDR (PGOFF (peek s spentry)) = 0"
    by (auto simp: u32_eq_iff bit_pte)
  then have pga: "PGADDR (pi OR PGOFF (peek s spentry)) = pi"
    by (rule PGADDR_or_flags[OF al])
  have ok: "PGADDR (peek ?s4 spentry) \<noteq> PGADDR (peek ?s4 dpentry)"
    using sep(1) by (simp add: p4 d4 pga tab[symmetric])
  show ?thesis
    using nz ok
    by (simp add: copy_pde_def mem_alloc_def fl Let_def p1 p2 p3 tab[symmetric] copy_fold
        NPTENTRIES_def mem_pi2ptr_def mem_pi2phys_def PGADDR_aligned[OF al])
       (simp add: poke_def copy_page_def)
qed


lemma cow_entry_bits:
  assumes "PGADDR e \<noteq> PTE_ZERO"
  shows "cow_entry e AND PTE_W = 0"
    and "e AND PTE_W \<noteq> 0 \<or> e AND SYS_WRITE \<noteq> 0 \<Longrightarrow> cow_entry e AND SYS_WRITE = SYS_WRITE"
    and "e AND PTE_W = 0 \<Longrightarrow> e AND SYS_WRITE = 0 \<Longrightarrow> cow_entry e AND SYS_WRITE = 0"
proof -
  have z: "e AND (PTE_W OR SYS_WRITE) = 0 \<longleftrightarrow> e AND PTE_W = 0 \<and> e AND SYS_WRITE = 0"
    by (auto simp: u32_eq_iff bit_pte)
  show "cow_entry e AND PTE_W = 0"
    using assms by (auto simp: cow_entry_def u32_eq_iff bit_pte)
  show "cow_entry e AND SYS_WRITE = SYS_WRITE" if "e AND PTE_W \<noteq> 0 \<or> e AND SYS_WRITE \<noteq> 0"
    using assms that z by (auto simp: cow_entry_def) (auto simp: u32_eq_iff bit_pte)
  show "cow_entry e AND SYS_WRITE = 0" if "e AND PTE_W = 0" "e AND SYS_WRITE = 0"
    using assms that z by (simp add: cow_entry_def and_SYS_WRITE_zero)
       (auto simp: bit_pte)
qed

text \<open>
  Claim C4, as amended. For arguments that pass its assertions (4 MiB-aligned addresses
  and size inside the user window), \<open>pmap_copy\<close> returns, and it treats the
  \<open>size / PTSIZE\<close> consecutive PDE pairs that start at \<open>PDX sva\<close> and \<open>PDX dva\<close> one
  after the other with the loop body \<open>copy_pde\<close>, stopping with 0 at the first
  allocation that fails. On the state \<open>s\<close> in which a pair is reached, the body does
  the following.

  If the address part of the source PDE is \<open>PTE_ZERO\<close> (so in particular if the PDE is
  \<open>PTE_ZERO\<close>), the destination PDE becomes equal to the source PDE and nothing else
  changes.

  Otherwise, with a frame \<open>pi\<close> at the head of the free list (page-aligned, and in use
  neither as the zero frame, the source table or one of the two directories; the source
  table is not a directory, and the two PDEs are different slots): \<open>pi\<close> leaves the
  free list and gets refcount 1; the destination PDE holds \<open>pi\<close> with the flag bits of
  the source PDE, which is unchanged; every entry of the source table over a frame other
  than the zero frame keeps its frame, has hardware \<open>W\<close> clear, has nominal \<open>SYS_READ\<close>
  set and has nominal \<open>SYS_WRITE\<close> set when it was writable by \<open>W\<close> or by
  \<open>SYS_WRITE\<close> (\<open>cow_entry\<close>); every entry over the zero frame is left as it is;
  every frame other than the zero frame gains one reference per entry that maps it, and
  the refcount of the zero frame stays; the new table \<open>pi\<close> is a copy of the modified
  source table.
\<close>
theorem copy_pde_pairs:
  "(PTOFF sva = 0 \<and> PTOFF dva = 0 \<and> PTOFF sz = 0 \<and>
    VM_USERLO \<le> sva \<and> sva < VM_USERHI \<and> VM_USERLO \<le> dva \<and> dva < VM_USERHI \<and>
    sz \<le> VM_USERHI - sva \<and> sz \<le> VM_USERHI - dva \<longrightarrow>
      pmap_copy st spdir sva dpdir dva sz =
        copy_pdes (unat sz div 4194304) st (spdir, PDX sva) (dpdir, PDX dva)) \<and>
   (PGADDR (peek s spentry) = PTE_ZERO \<longrightarrow>
      copy_pde s spentry dpentry = Inr (True, poke s dpentry (peek s spentry))) \<and>
   (PGADDR (peek s spentry) \<noteq> PTE_ZERO \<and> tab = PGADDR (peek s spentry) \<and>
    freelist s = pi # rest \<and> PGOFF pi = 0 \<and> pi \<noteq> PTE_ZERO \<and>
    pi \<noteq> tab \<and> pi \<noteq> fst spentry \<and> pi \<noteq> fst dpentry \<and>
    tab \<noteq> fst spentry \<and> tab \<noteq> fst dpentry \<and> spentry \<noteq> dpentry \<longrightarrow>
      (\<exists>s'. copy_pde s spentry dpentry = Inr (True, s') \<and>
            freelist s' = rest \<and> refcount s' pi = 1 \<and>
            PGADDR (peek s' dpentry) = pi \<and>
            PGOFF (peek s' dpentry) = PGOFF (peek s spentry) \<and>
            peek s' spentry = peek s spentry \<and>
            (\<forall>i<1024. mem s' tab i = cow_entry (mem s tab i)) \<and>
            (\<forall>i<1024. PGADDR (mem s tab i) \<noteq> PTE_ZERO \<longrightarrow>
               PGADDR (mem s' tab i) = PGADDR (mem s tab i) \<and>
               mem s' tab i AND PTE_W = 0 \<and>
               (mem s tab i AND PTE_W \<noteq> 0 \<or> mem s tab i AND SYS_WRITE \<noteq> 0 \<longrightarrow>
                  mem s' tab i AND SYS_WRITE = SYS_WRITE)) \<and>
            (\<forall>f. f \<noteq> pi \<and> f \<noteq> PTE_ZERO \<longrightarrow>
               refcount s' f = refcount s f + nrefs s tab 1024 f) \<and>
            refcount s' PTE_ZERO = refcount s PTE_ZERO \<and>
            (\<forall>i<1024. mem s' pi i = mem s' tab i)))"
proof (intro conjI impI)
  assume "PTOFF sva = 0 \<and> PTOFF dva = 0 \<and> PTOFF sz = 0 \<and>
    VM_USERLO \<le> sva \<and> sva < VM_USERHI \<and> VM_USERLO \<le> dva \<and> dva < VM_USERHI \<and>
    sz \<le> VM_USERHI - sva \<and> sz \<le> VM_USERHI - dva"
  then show "pmap_copy st spdir sva dpdir dva sz =
        copy_pdes (unat sz div 4194304) st (spdir, PDX sva) (dpdir, PDX dva)"
    by (intro pmap_copy_eq) simp_all
next
  assume "PGADDR (peek s spentry) = PTE_ZERO"
  then show "copy_pde s spentry dpentry = Inr (True, poke s dpentry (peek s spentry))"
    by (rule copy_pde_zero)
next
  assume h: "PGADDR (peek s spentry) \<noteq> PTE_ZERO \<and> tab = PGADDR (peek s spentry) \<and>
    freelist s = pi # rest \<and> PGOFF pi = 0 \<and> pi \<noteq> PTE_ZERO \<and>
    pi \<noteq> tab \<and> pi \<noteq> fst spentry \<and> pi \<noteq> fst dpentry \<and>
    tab \<noteq> fst spentry \<and> tab \<noteq> fst dpentry \<and> spentry \<noteq> dpentry"
  then have nz: "PGADDR (peek s spentry) \<noteq> PTE_ZERO" and tab: "tab = PGADDR (peek s spentry)"
    and fl: "freelist s = pi # rest" and al: "PGOFF pi = 0" and piz: "pi \<noteq> PTE_ZERO"
    and sep: "pi \<noteq> tab" "pi \<noteq> fst spentry" "tab \<noteq> fst spentry" "spentry \<noteq> dpentry"
    and sepd: "pi \<noteq> fst dpentry" "tab \<noteq> fst dpentry"
    by blast+
  let ?s1 = "s\<lparr>freelist := rest, nalloc := Suc (nalloc s)\<rparr>"
  let ?s2 = "copied ?s1 tab 1024"
  define t where "t = (poke (copy_page ?s2 pi tab) dpentry (pi OR PGOFF (peek s spentry)))
               \<lparr>refcount := (refcount ?s2)(pi := 1)\<rparr>"
  have run: "copy_pde s spentry dpentry = Inr (True, t)"
    unfolding t_def by (rule copy_pde_fresh[OF nz tab fl al sep])
  have flags: "PGADDR (PGOFF (peek s spentry)) = 0"
    by (auto simp: u32_eq_iff bit_pte)
  have nr: "nrefs ?s1 tab 1024 f = nrefs s tab 1024 f" for f
    by (simp add: nrefs_def)
  have m_tab: "mem t tab i = (if i < 1024 then cow_entry (mem s tab i) else mem s tab i)" for i
    using sep(1) sepd(2) by (simp add: t_def poke_def copy_page_def copied_fields)
  have m_pi: "mem t pi i = mem t tab i" for i
    using sep(1) sepd by (simp add: t_def poke_def copy_page_def copied_fields)
  have a: "freelist t = rest" "refcount t pi = 1"
    by (simp_all add: t_def poke_def copy_page_def copied_fields)
  have b: "peek t dpentry = pi OR PGOFF (peek s spentry)"
    by (simp add: t_def peek_def poke_def)
  have c: "peek t spentry = peek s spentry"
    using sep(2,3,4)
    by (cases spentry; cases dpentry)
       (auto simp: t_def peek_def poke_def copy_page_def copied_fields)
  have d: "refcount t f = refcount s f + nrefs s tab 1024 f" if "f \<noteq> pi \<and> f \<noteq> PTE_ZERO" for f
    using that by (simp add: t_def poke_def copy_page_def copied_fields nr)
  have e: "refcount t PTE_ZERO = refcount s PTE_ZERO"
    using piz by (simp add: t_def poke_def copy_page_def copied_fields)
  have f: "PGADDR (mem s tab i) \<noteq> PTE_ZERO \<longrightarrow>
               PGADDR (mem t tab i) = PGADDR (mem s tab i) \<and>
               mem t tab i AND PTE_W = 0 \<and>
               (mem s tab i AND PTE_W \<noteq> 0 \<or> mem s tab i AND SYS_WRITE \<noteq> 0 \<longrightarrow>
                  mem t tab i AND SYS_WRITE = SYS_WRITE)" if "i < 1024" for i
    using that cow_entry_bits(1,2)[of "mem s tab i"]
    by (auto simp: m_tab PGADDR_cow_entry)
  show "\<exists>s'. copy_pde s spentry dpentry = Inr (True, s') \<and>
            freelist s' = rest \<and> refcount s' pi = 1 \<and>
            PGADDR (peek s' dpentry) = pi \<and>
            PGOFF (peek s' dpentry) = PGOFF (peek s spentry) \<and>
            peek s' spentry = peek s spentry \<and>
            (\<forall>i<1024. mem s' tab i = cow_entry (mem s tab i)) \<and>
            (\<forall>i<1024. PGADDR (mem s tab i) \<noteq> PTE_ZERO \<longrightarrow>
               PGADDR (mem s' tab i) = PGADDR (mem s tab i) \<and>
               mem s' tab i AND PTE_W = 0 \<and>
               (mem s tab i AND PTE_W \<noteq> 0 \<or> mem s tab i AND SYS_WRITE \<noteq> 0 \<longrightarrow>
                  mem s' tab i AND SYS_WRITE = SYS_WRITE)) \<and>
            (\<forall>f. f \<noteq> pi \<and> f \<noteq> PTE_ZERO \<longrightarrow>
               refcount s' f = refcount s f + nrefs s tab 1024 f) \<and>
            refcount s' PTE_ZERO = refcount s PTE_ZERO \<and>
            (\<forall>i<1024. mem s' pi i = mem s' tab i)"
  proof (intro exI[of _ t] conjI allI impI)
    show "copy_pde s spentry dpentry = Inr (True, t)" by (rule run)
    show "freelist t = rest" "refcount t pi = 1" by (rule a)+
    show "PGADDR (peek t dpentry) = pi"
      unfolding b by (rule PGADDR_or_flags[OF al flags])
    show "PGOFF (peek t dpentry) = PGOFF (peek s spentry)"
      unfolding b by (rule PGOFF_or_flags[OF al flags])
    show "peek t spentry = peek s spentry" by (rule c)
    show "mem t tab i = cow_entry (mem s tab i)" if "i < 1024" for i
      using that by (simp add: m_tab)
    show "refcount t f = refcount s f + nrefs s tab 1024 f" if "f \<noteq> pi \<and> f \<noteq> PTE_ZERO" for f
      using that by (rule d)
    show "refcount t PTE_ZERO = refcount s PTE_ZERO" by (rule e)
    show "mem t pi i = mem t tab i" if "i < 1024" for i by (rule m_pi)
    show "PGADDR (mem t tab i) = PGADDR (mem s tab i)"
      if "i < 1024" "PGADDR (mem s tab i) \<noteq> PTE_ZERO" for i
      using f[OF that(1)] that(2) by simp
    show "mem t tab i AND PTE_W = 0"
      if "i < 1024" "PGADDR (mem s tab i) \<noteq> PTE_ZERO" for i
      using f[OF that(1)] that(2) by simp
    show "mem t tab i AND SYS_WRITE = SYS_WRITE"
      if "i < 1024" "PGADDR (mem s tab i) \<noteq> PTE_ZERO"
        "mem s tab i AND PTE_W \<noteq> 0 \<or> mem s tab i AND SYS_WRITE \<noteq> 0" for i
      using f[OF that(1)] that(2,3) by simp
  qed
qed


lemma ex_mapped_fields:
  "mem (ex_mapped pte rc fl) ex_ptab = (\<lambda>i. PTE_ZERO)(0 := pte)"
  "refcount (ex_mapped pte rc fl) ex_frame = rc"
  "refcount (ex_mapped pte rc fl) PTE_ZERO = 0"
  "freelist (ex_mapped pte rc fl) = fl"
  by (simp_all add: ex_mapped_def ex_defs PTE_ZERO_def)

lemma ex_nrefs:
  assumes "f \<noteq> PTE_ZERO"
  shows "nrefs (ex_mapped pte rc fl) ex_ptab 1024 f = (if PGADDR pte = f then 1 else 0)"
proof -
  have "\<forall>i\<in>set [Suc 0..<1024]. \<not> PGADDR (mem (ex_mapped pte rc fl) ex_ptab i) = f"
    using assms by (auto simp: ex_mapped_fields PGADDR_PTE_ZERO)
  then have e: "filter (\<lambda>i. PGADDR (mem (ex_mapped pte rc fl) ex_ptab i) = f) [Suc 0..<1024] = []"
    by (simp only: filter_False)
  have "(0::nat) < 1024" by simp
  then have u: "[0..<1024] = 0 # [Suc 0..<1024]"
    by (rule upt_conv_Cons)
  show ?thesis
    unfolding nrefs_def u by (simp only: filter.simps e) (simp add: ex_mapped_fields)
qed

lemma ex_copy_hyps:
  "PTOFF 0x40000000 = 0 \<and> PTOFF 0x400000 = 0 \<and>
   VM_USERLO \<le> 0x40000000 \<and> 0x40000000 < VM_USERHI \<and> 0x400000 \<le> VM_USERHI - 0x40000000"
  by (simp add: consts_defs)

lemma ex_copy_sep:
  "PGADDR (peek (ex_mapped pte rc [ex_fresh]) (ex_pdir, 256)) \<noteq> PTE_ZERO \<and>
   ex_ptab = PGADDR (peek (ex_mapped pte rc [ex_fresh]) (ex_pdir, 256)) \<and>
   freelist (ex_mapped pte rc [ex_fresh]) = ex_fresh # [] \<and> PGOFF ex_fresh = 0 \<and>
   ex_fresh \<noteq> PTE_ZERO \<and> ex_fresh \<noteq> ex_ptab \<and> ex_fresh \<noteq> fst (ex_pdir, 256::nat) \<and>
   ex_fresh \<noteq> fst (0x00202000::u32, 256::nat) \<and> ex_ptab \<noteq> fst (ex_pdir, 256::nat) \<and>
   ex_ptab \<noteq> fst (0x00202000::u32, 256::nat) \<and> (ex_pdir, 256::nat) \<noteq> (0x00202000, 256)"
  by (simp add: ex_mapped_peek ex_mapped_fields) (simp add: ex_defs consts_defs)

theorem copy_pde_pairs_witness:
  "PTOFF 0x40000000 = 0 \<and> PTOFF 0x400000 = 0 \<and>
   VM_USERLO \<le> 0x40000000 \<and> 0x40000000 < VM_USERHI \<and> 0x400000 \<le> VM_USERHI - 0x40000000 \<and>
   pmap_copy (ex_mapped 0x00300007 1 [ex_fresh]) ex_pdir 0x40000000 0x00202000 0x40000000 0x400000 =
     copy_pdes 1 (ex_mapped 0x00300007 1 [ex_fresh]) (ex_pdir, 256) (0x00202000, 256) \<and>
   PGADDR (peek (ex_empty []) (ex_pdir, 256)) = PTE_ZERO \<and>
   copy_pde (ex_empty []) (ex_pdir, 256) (0x00202000, 256) =
     Inr (True, poke (ex_empty []) (0x00202000, 256) PTE_ZERO) \<and>
   PGADDR (peek (ex_mapped 0x00300007 1 [ex_fresh]) (ex_pdir, 256)) \<noteq> PTE_ZERO \<and>
   ex_ptab = PGADDR (peek (ex_mapped 0x00300007 1 [ex_fresh]) (ex_pdir, 256)) \<and>
   freelist (ex_mapped 0x00300007 1 [ex_fresh]) = ex_fresh # [] \<and> PGOFF ex_fresh = 0 \<and>
   ex_fresh \<noteq> PTE_ZERO \<and> ex_fresh \<noteq> ex_ptab \<and> ex_fresh \<noteq> fst (ex_pdir, 256::nat) \<and>
   ex_fresh \<noteq> fst (0x00202000::u32, 256::nat) \<and> ex_ptab \<noteq> fst (ex_pdir, 256::nat) \<and>
   ex_ptab \<noteq> fst (0x00202000::u32, 256::nat) \<and> (ex_pdir, 256::nat) \<noteq> (0x00202000, 256) \<and>
   (\<exists>s'. copy_pde (ex_mapped 0x00300007 1 [ex_fresh]) (ex_pdir, 256) (0x00202000, 256) =
           Inr (True, s') \<and>
         freelist s' = [] \<and> refcount s' ex_fresh = 1 \<and>
         peek s' (0x00202000, 256) = 0x00301027 \<and>
         mem s' ex_ptab 0 = 0x00300605 \<and> mem s' ex_ptab 1 = PTE_ZERO \<and>
         refcount s' ex_frame = 2 \<and> refcount s' PTE_ZERO = 0 \<and>
         mem s' ex_fresh 0 = 0x00300605 \<and> mem s' ex_fresh 1 = PTE_ZERO)"
proof -
  let ?s = "ex_mapped 0x00300007 1 [ex_fresh]"
  let ?sp = "(ex_pdir, 256::nat)"
  let ?dp = "(0x00202000::u32, 256::nat)"
  note inst = copy_pde_pairs [where sva = "0x40000000" and dva = "0x40000000" and sz = "0x400000"
      and spdir = ex_pdir and dpdir = "0x00202000" and st = "?s" and spentry = "?sp" and dpentry = "?dp"]
  have one: "unat (0x400000::u32) div 4194304 = 1"
    by simp
  have p1: "pmap_copy ?s ex_pdir 0x40000000 0x00202000 0x40000000 0x400000 =
     copy_pdes 1 ?s ?sp ?dp"
    using inst [where s = "?s", THEN conjunct1] ex_copy_hyps by (simp add: PDX_ex one)
  have z: "PGADDR (peek (ex_empty []) ?sp) = PTE_ZERO"
    by (simp add: ex_empty_pde PGADDR_PTE_ZERO)
  have p2: "copy_pde (ex_empty []) ?sp ?dp = Inr (True, poke (ex_empty []) ?dp PTE_ZERO)"
    using inst [where s = "ex_empty []", THEN conjunct2, THEN conjunct1] z
    by (simp add: ex_empty_pde)
  from inst [where s = "?s" and tab = ex_ptab and pi = ex_fresh and rest = "[]",
      THEN conjunct2, THEN conjunct2, THEN mp, OF ex_copy_sep]
  obtain s' where r: "copy_pde ?s ?sp ?dp = Inr (True, s')"
    "freelist s' = []" "refcount s' ex_fresh = 1"
    "PGADDR (peek s' ?dp) = ex_fresh" "PGOFF (peek s' ?dp) = PGOFF (peek ?s ?sp)"
    "\<forall>i<1024. mem s' ex_ptab i = cow_entry (mem ?s ex_ptab i)"
    "\<forall>f. f \<noteq> ex_fresh \<and> f \<noteq> PTE_ZERO \<longrightarrow>
        refcount s' f = refcount ?s f + nrefs ?s ex_ptab 1024 f"
    "refcount s' PTE_ZERO = refcount ?s PTE_ZERO"
    "\<forall>i<1024. mem s' ex_fresh i = mem s' ex_ptab i"
    by (elim exE conjE) (rule that, assumption+)
  have "peek s' ?dp = PGADDR (peek s' ?dp) OR PGOFF (peek s' ?dp)"
    by (simp add: PGADDR_PGOFF)
  then have dp: "peek s' ?dp = 0x00301027"
    unfolding r(4,5) by (simp add: ex_mapped_peek) (simp add: ex_defs consts_defs)
  have c0: "cow_entry 0x00300007 = 0x00300605" and c1: "cow_entry PTE_ZERO = PTE_ZERO"
    by (simp_all add: cow_entry_def consts_defs)
  have t0: "mem s' ex_ptab 0 = 0x00300605" and t1: "mem s' ex_ptab 1 = PTE_ZERO"
    using r(6)[rule_format, of 0] r(6)[rule_format, of 1]
    by (simp_all add: ex_mapped_fields c0 c1)
  have f0: "mem s' ex_fresh 0 = 0x00300605" and f1: "mem s' ex_fresh 1 = PTE_ZERO"
    using r(9)[rule_format, of 0] r(9)[rule_format, of 1] t0 t1 by simp_all
  have fr: "ex_frame \<noteq> ex_fresh \<and> ex_frame \<noteq> PTE_ZERO" "PGADDR 0x00300007 = ex_frame"
    by (simp_all add: ex_defs consts_defs)
  have rc: "refcount s' ex_frame = 2"
    using r(7)[rule_format, OF fr(1)] fr by (simp add: ex_nrefs ex_mapped_fields)
  have rz: "refcount s' PTE_ZERO = 0"
    using r(8) by (simp add: ex_mapped_fields)
  have ex: "\<exists>s'. copy_pde ?s ?sp ?dp = Inr (True, s') \<and>
         freelist s' = [] \<and> refcount s' ex_fresh = 1 \<and>
         peek s' ?dp = 0x00301027 \<and>
         mem s' ex_ptab 0 = 0x00300605 \<and> mem s' ex_ptab 1 = PTE_ZERO \<and>
         refcount s' ex_frame = 2 \<and> refcount s' PTE_ZERO = 0 \<and>
         mem s' ex_fresh 0 = 0x00300605 \<and> mem s' ex_fresh 1 = PTE_ZERO"
    using r(1,2,3) dp t0 t1 rc rz f0 f1 by blast
  show ?thesis
    apply (insert ex_copy_hyps p1 z p2 ex_copy_sep[of "0x00300007" 1] ex)
    apply (elim conjE)
    apply (intro conjI; assumption)
    done
qed


text \<open>
  Claim C4 as stated fails for a source entry that is not \<open>PTE_ZERO\<close> but lies over the
  zero frame, such as \<open>PTE_ZERO | SYS_READ | SYS_WRITE | PTE_P | PTE_U\<close>, the entry of a
  page that was given permissions and never written: \<open>pmap_copy\<close> succeeds, and the
  refcount of the frame the entry references, the zero frame, is not incremented.
\<close>
theorem copy_zero_frame_entry_counterexample:
  "peek (ex_mapped 0x00120605 0 [ex_fresh]) (ex_ptab, 0) \<noteq> PTE_ZERO \<and>
   PGADDR (peek (ex_mapped 0x00120605 0 [ex_fresh]) (ex_ptab, 0)) = PTE_ZERO \<and>
   pmap_copy (ex_mapped 0x00120605 0 [ex_fresh]) ex_pdir 0x40000000 0x00202000 0x40000000 0x400000 =
     Inr (1, ((poke (copy_page (copied ((ex_mapped 0x00120605 0 [ex_fresh])\<lparr>freelist := [], nalloc := Suc (nalloc (ex_mapped 0x00120605 0 [ex_fresh]))\<rparr>) ex_ptab 1024) ex_fresh ex_ptab) (0x00202000, 256)
              (ex_fresh OR PGOFF (peek (ex_mapped 0x00120605 0 [ex_fresh]) (ex_pdir, 256))))
           \<lparr>refcount := (refcount (copied ((ex_mapped 0x00120605 0 [ex_fresh])\<lparr>freelist := [], nalloc := Suc (nalloc (ex_mapped 0x00120605 0 [ex_fresh]))\<rparr>) ex_ptab 1024))(ex_fresh := 1)\<rparr>)) \<and>
   refcount ((poke (copy_page (copied ((ex_mapped 0x00120605 0 [ex_fresh])\<lparr>freelist := [], nalloc := Suc (nalloc (ex_mapped 0x00120605 0 [ex_fresh]))\<rparr>) ex_ptab 1024) ex_fresh ex_ptab) (0x00202000, 256)
              (ex_fresh OR PGOFF (peek (ex_mapped 0x00120605 0 [ex_fresh]) (ex_pdir, 256))))
           \<lparr>refcount := (refcount (copied ((ex_mapped 0x00120605 0 [ex_fresh])\<lparr>freelist := [], nalloc := Suc (nalloc (ex_mapped 0x00120605 0 [ex_fresh]))\<rparr>) ex_ptab 1024))(ex_fresh := 1)\<rparr>) PTE_ZERO = refcount (ex_mapped 0x00120605 0 [ex_fresh]) PTE_ZERO \<and>
   peek ((poke (copy_page (copied ((ex_mapped 0x00120605 0 [ex_fresh])\<lparr>freelist := [], nalloc := Suc (nalloc (ex_mapped 0x00120605 0 [ex_fresh]))\<rparr>) ex_ptab 1024) ex_fresh ex_ptab) (0x00202000, 256)
              (ex_fresh OR PGOFF (peek (ex_mapped 0x00120605 0 [ex_fresh]) (ex_pdir, 256))))
           \<lparr>refcount := (refcount (copied ((ex_mapped 0x00120605 0 [ex_fresh])\<lparr>freelist := [], nalloc := Suc (nalloc (ex_mapped 0x00120605 0 [ex_fresh]))\<rparr>) ex_ptab 1024))(ex_fresh := 1)\<rparr>) (ex_ptab, 0) = peek (ex_mapped 0x00120605 0 [ex_fresh]) (ex_ptab, 0)"
proof -
  let ?s = "(ex_mapped 0x00120605 0 [ex_fresh])"
  let ?t = "((poke (copy_page (copied ((ex_mapped 0x00120605 0 [ex_fresh])\<lparr>freelist := [], nalloc := Suc (nalloc (ex_mapped 0x00120605 0 [ex_fresh]))\<rparr>) ex_ptab 1024) ex_fresh ex_ptab) (0x00202000, 256)
              (ex_fresh OR PGOFF (peek (ex_mapped 0x00120605 0 [ex_fresh]) (ex_pdir, 256))))
           \<lparr>refcount := (refcount (copied ((ex_mapped 0x00120605 0 [ex_fresh])\<lparr>freelist := [], nalloc := Suc (nalloc (ex_mapped 0x00120605 0 [ex_fresh]))\<rparr>) ex_ptab 1024))(ex_fresh := 1)\<rparr>)"
  have a: "peek ?s (ex_ptab, 0) \<noteq> PTE_ZERO" "PGADDR (peek ?s (ex_ptab, 0)) = PTE_ZERO"
    by (simp_all add: ex_mapped_peek) (simp_all add: consts_defs)
  have sep: "PGADDR (peek ?s (ex_pdir, 256)) \<noteq> PTE_ZERO"
    "ex_ptab = PGADDR (peek ?s (ex_pdir, 256))"
    "freelist ?s = ex_fresh # []" "PGOFF ex_fresh = 0"
    "ex_fresh \<noteq> ex_ptab" "ex_fresh \<noteq> fst (ex_pdir, 256::nat)"
    "ex_ptab \<noteq> fst (ex_pdir, 256::nat)" "(ex_pdir, 256::nat) \<noteq> (0x00202000, 256)"
    using ex_copy_sep[of "0x00120605" 0] by blast+
  have pde: "copy_pde ?s (ex_pdir, 256) (0x00202000, 256) = Inr (True, ?t)"
    by (rule copy_pde_fresh[OF sep])
  have h: "PTOFF 0x40000000 = 0" "PTOFF 0x400000 = 0"
    "VM_USERLO \<le> 0x40000000" "0x40000000 < VM_USERHI" "0x400000 \<le> VM_USERHI - 0x40000000"
    using ex_copy_hyps by blast+
  have "pmap_copy ?s ex_pdir 0x40000000 0x00202000 0x40000000 0x400000 =
        copy_pdes (unat (0x400000::u32) div 4194304) ?s (ex_pdir, PDX 0x40000000)
          (0x00202000, PDX 0x40000000)"
    by (rule pmap_copy_eq[OF h(1) h(1) h(2) h(3) h(4) h(3) h(4) h(5) h(5)])
  also have "unat (0x400000::u32) div 4194304 = Suc 0"
    by simp
  finally have run: "pmap_copy ?s ex_pdir 0x40000000 0x00202000 0x40000000 0x400000 = Inr (1, ?t)"
    by (simp add: PDX_ex pde)
  have z: "ex_fresh \<noteq> PTE_ZERO"
    by (simp add: ex_defs consts_defs)
  have b: "refcount ?t PTE_ZERO = refcount ?s PTE_ZERO"
    using z by (simp add: copied_fields)
  have "cow_entry 0x00120605 = 0x00120605"
    by (simp add: cow_entry_def consts_defs)
  then have c: "peek ?t (ex_ptab, 0) = peek ?s (ex_ptab, 0)"
    using sep(5) by (simp add: peek_def poke_def copy_page_def copied_fields ex_mapped_fields)
  show ?thesis
    using a run b c by (intro conjI)
qed

section \<open>What \<open>pmap_remove\<close> leaves alone\<close>
lemma same_chunk:
  assumes "PDX v' = PDX v" "PTOFF v = 0"
  shows "unat v \<le> unat v' \<and> unat v' < unat v + 4194304"
proof -
  have e: "unat v' div 4194304 = unat v div 4194304"
    using assms(1) by (simp add: PDX_nat)
  have a: "unat v = unat v div 4194304 * 4194304"
    using assms(2) div_mult_mod_eq[of "unat v" 4194304] by (simp add: PTOFF_iff)
  have b: "unat v' = unat v div 4194304 * 4194304 + unat v' mod 4194304"
    using div_mult_mod_eq[of "unat v'" 4194304] e by simp
  have "unat v' mod 4194304 < 4194304" by simp
  with a b show ?thesis by linarith
qed

lemma same_page:
  assumes "PDX v' = PDX v" "PTX v' = PTX v" "PGOFF v = 0"
  shows "unat v \<le> unat v' \<and> unat v' < unat v + 4096"
proof -
  define a a' where "a = unat v div 4096" and "a' = unat v' div 4096"
  have d: "a div 1024 = a' div 1024"
    using assms(1) by (simp add: PDX_nat a_def a'_def div_mult2_eq[symmetric])
  have m: "a mod 1024 = a' mod 1024"
    using assms(2) by (simp add: PTX_nat a_def a'_def)
  have "a = a div 1024 * 1024 + a mod 1024" "a' = a' div 1024 * 1024 + a' mod 1024"
    by (simp_all only: div_mult_mod_eq)
  with d m have e: "a' = a" by simp
  have x: "unat v = a * 4096"
    using assms(3) div_mult_mod_eq[of "unat v" 4096] by (simp add: PGOFF_iff a_def)
  have "unat v' = a' * 4096 + unat v' mod 4096"
    unfolding a'_def by (rule div_mult_mod_eq[symmetric])
  then have y: "unat v' = a * 4096 + unat v' mod 4096"
    unfolding e .
  have "unat v' mod 4096 < 4096" by simp
  with x y show ?thesis by linarith
qed

lemma window_index:
  assumes "VM_USERLO \<le> v" "v < VM_USERHI"
  shows "PDX VM_USERLO \<le> PDX v \<and> PDX v < PDX VM_USERHI"
proof -
  have "1073741824 \<le> unat v" "unat v < 4026531840"
    using assms by (simp_all add: word_le_nat_alt word_less_nat_alt HI_nat LO_nat)
  then have "256 \<le> unat v div 4194304 \<and> unat v div 4194304 < 960"
    by (simp add: le_div_geq div_less_iff_less_mult less_mult_imp_div_less)
  then show ?thesis
    by (simp add: PDX_nat HI_nat LO_nat)
qed

lemma freeptab_fold_frame:
  "mem (fold (freeptab_entry p) xs s) = mem s \<and> nalloc (fold (freeptab_entry p) xs s) = nalloc s"
proof (induction xs arbitrary: s)
  case Nil
  show ?case by simp
next
  case (Cons x xs)
  have "mem (freeptab_entry p x s) = mem s \<and> nalloc (freeptab_entry p x s) = nalloc s"
    by (simp add: freeptab_entry_def mem_decref_def mem_free_def Let_def)
  with Cons[of "freeptab_entry p x s"] show ?case by simp
qed

lemma freeptab_frame:
  "mem (pmap_freeptab s p) = mem s" "nalloc (pmap_freeptab s p) = nalloc s"
  by (simp_all add: pmap_freeptab_def mem_free_def freeptab_fold_frame)

lemma decref_frame:
  "mem (mem_decref s a mem_free) = mem s" "nalloc (mem_decref s a mem_free) = nalloc s"
  "mem (mem_decref s a pmap_freeptab) = mem s" "nalloc (mem_decref s a pmap_freeptab) = nalloc s"
  by (simp_all add: mem_decref_def mem_free_def Let_def freeptab_frame)


lemma remove_inv_refl: "remove_inv s pdir lo hi s"
  by (simp add: remove_inv_def)

lemma wf_pdirD1:
  "wf_pdir s pdir \<Longrightarrow> PDX VM_USERLO \<le> i \<and> i < PDX VM_USERHI \<Longrightarrow> mem s pdir i \<noteq> PTE_ZERO \<Longrightarrow>
   PGADDR (mem s pdir i) \<noteq> pdir"
  unfolding wf_pdir_def by (elim conjE allE[of _ i]) simp

lemma wf_pdirD2:
  "wf_pdir s pdir \<Longrightarrow> PDX VM_USERLO \<le> i \<and> i < PDX VM_USERHI \<Longrightarrow>
   PDX VM_USERLO \<le> j \<and> j < PDX VM_USERHI \<Longrightarrow>
   mem s pdir i \<noteq> PTE_ZERO \<Longrightarrow> mem s pdir j \<noteq> PTE_ZERO \<Longrightarrow>
   PGADDR (mem s pdir i) = PGADDR (mem s pdir j) \<Longrightarrow> i = j"
  unfolding wf_pdir_def by (elim conjE allE[of _ i] allE[of _ j]) simp

lemma remove_invD:
  assumes "remove_inv s pdir lo hi t"
  shows "nalloc t = nalloc s"
    and "mem t pdir i = mem s pdir i \<or> mem t pdir i = PTE_ZERO"
    and "\<not> (lo \<le> v \<and> v < hi) \<Longrightarrow> mem t pdir (PDX v) = mem s pdir (PDX v)"
    and "\<not> (lo \<le> v \<and> v < hi) \<Longrightarrow> VM_USERLO \<le> v \<Longrightarrow> v < VM_USERHI \<Longrightarrow>
         mem s pdir (PDX v) \<noteq> PTE_ZERO \<Longrightarrow>
         mem t (PGADDR (mem s pdir (PDX v))) (PTX v) = mem s (PGADDR (mem s pdir (PDX v))) (PTX v)"
  using assms unfolding remove_inv_def by simp_all

lemma remove_pte_inv:
  assumes wf: "wf_pdir s pdir" and inv: "remove_inv s pdir lo hi t"
    and v: "lo \<le> v" "v < hi" "PGOFF v = 0" "PGOFF hi = 0" "VM_USERLO \<le> v" "v < VM_USERHI"
  shows "\<exists>t'. remove_pte t pdir v = Inr t' \<and> remove_inv s pdir lo hi t'"
proof (cases "mem t pdir (PDX v) = PTE_ZERO")
  case True
  then have "remove_pte t pdir v = Inr t"
    by (simp add: remove_pte_def peek_def)
  with inv show ?thesis by simp
next
  case False
  define e where "e = mem t pdir (PDX v)"
  note d = remove_invD[OF inv]
  have es: "mem s pdir (PDX v) = e"
    using d(2)[of "PDX v"] False by (auto simp: e_def)
  have enz: "e \<noteq> PTE_ZERO"
    using False by (simp add: e_def)
  note idx = window_index[OF v(5,6)]
  have notpd: "PGADDR e \<noteq> pdir"
    using wf_pdirD1[OF wf idx] es enz by simp
  have walk: "pmap_walk t pdir v True = Inr (Some (PGADDR e, PTX v), t)"
    using walk_present[OF v(5,6), of t pdir True] False by (simp add: peek_def e_def)
  show ?thesis
  proof (cases "PGADDR (mem t (PGADDR e) (PTX v)) = PTE_ZERO")
    case True
    then have "remove_pte t pdir v = Inr t"
      using False by (simp add: remove_pte_def peek_def walk Let_def)
    with inv show ?thesis by simp
  next
    case nz: False
    define t' where "t' = poke (mem_decref t (mem_phys2pi (PGADDR (mem t (PGADDR e) (PTX v)))) mem_free)
                            (PGADDR e, PTX v) PTE_ZERO"
    have run: "remove_pte t pdir v = Inr t'"
      using False nz by (simp add: remove_pte_def peek_def walk Let_def t'_def)
    have m: "mem t' p i = (if p = PGADDR e \<and> i = PTX v then PTE_ZERO else mem t p i)" for p i
      by (simp add: t'_def poke_def decref_frame)
    have na: "nalloc t' = nalloc t"
      by (simp add: t'_def poke_def decref_frame)
    have hi_le: "unat v + 4096 \<le> unat hi"
      using next_page(1,2)[OF v(3,4,2)] by (simp add: word_le_nat_alt)
    have lo_le: "unat lo \<le> unat v"
      using v(1) by (simp add: word_le_nat_alt)
    have outside: "\<not> (PGADDR (mem s pdir (PDX w)) = PGADDR e \<and> PTX w = PTX v)"
      if w: "\<not> (lo \<le> w \<and> w < hi)" "VM_USERLO \<le> w" "w < VM_USERHI"
        "mem s pdir (PDX w) \<noteq> PTE_ZERO" for w
    proof
      assume a: "PGADDR (mem s pdir (PDX w)) = PGADDR e \<and> PTX w = PTX v"
      note idw = window_index[OF w(2,3)]
      have ne: "mem s pdir (PDX v) \<noteq> PTE_ZERO"
        using es enz by simp
      have eq: "PGADDR (mem s pdir (PDX w)) = PGADDR (mem s pdir (PDX v))"
        using a es by simp
      have "PDX w = PDX v"
        by (rule wf_pdirD2[OF wf idw idx w(4) ne eq])
      from same_page[OF this conjunct2[OF a] v(3)]
      have "unat v \<le> unat w" "unat w < unat v + 4096"
        by simp_all
      with hi_le lo_le have "unat lo \<le> unat w" "unat w < unat hi"
        by linarith+
      then have "lo \<le> w \<and> w < hi"
        by (simp add: word_le_nat_alt word_less_nat_alt)
      with w(1) show False by simp
    qed
    have "remove_inv s pdir lo hi t'"
      unfolding remove_inv_def
    proof (intro conjI allI impI)
      show "nalloc t' = nalloc s"
        using d(1) na by simp
      show "mem t' pdir i = mem s pdir i \<or> mem t' pdir i = PTE_ZERO" for i
        using d(2)[of i] notpd by (simp add: m)
      show "mem t' pdir (PDX w) = mem s pdir (PDX w)" if "\<not> (lo \<le> w \<and> w < hi)" for w
        using d(3)[OF that] notpd by (simp add: m)
      show "mem t' (PGADDR (mem s pdir (PDX w))) (PTX w) =
            mem s (PGADDR (mem s pdir (PDX w))) (PTX w)"
        if h: "\<not> (lo \<le> w \<and> w < hi) \<and> VM_USERLO \<le> w \<and> w < VM_USERHI \<and>
            mem s pdir (PDX w) \<noteq> PTE_ZERO" for w
      proof -
        from h have w: "\<not> (lo \<le> w \<and> w < hi)" "VM_USERLO \<le> w" "w < VM_USERHI"
          "mem s pdir (PDX w) \<noteq> PTE_ZERO"
          by simp_all
        have "mem t (PGADDR (mem s pdir (PDX w))) (PTX w) =
              mem s (PGADDR (mem s pdir (PDX w))) (PTX w)"
          by (rule d(4)[OF w])
        moreover have "\<not> (PGADDR (mem s pdir (PDX w)) = PGADDR e \<and> PTX w = PTX v)"
          by (rule outside[OF w])
        ultimately show ?thesis
          by (auto simp: m)
      qed
    qed
    with run show ?thesis by simp
  qed
qed


lemma remove_ptab_inv:
  assumes wf: "wf_pdir s pdir" and inv: "remove_inv s pdir lo hi t"
    and v: "lo \<le> v" "unat v + 4194304 \<le> unat hi" "PTOFF v = 0"
  shows "remove_inv s pdir lo hi (remove_ptab t pdir v)"
proof (cases "mem t pdir (PDX v) = PTE_ZERO")
  case True
  then have "remove_ptab t pdir v = t"
    by (simp add: remove_ptab_def peek_def)
  with inv show ?thesis by simp
next
  case False
  define t' where "t' = remove_ptab t pdir v"
  note d = remove_invD[OF inv]
  have m: "mem t' p i = (if p = pdir \<and> i = PDX v then PTE_ZERO else mem t p i)" for p i
    using False by (simp add: t'_def remove_ptab_def peek_def poke_def Let_def decref_frame)
  have na: "nalloc t' = nalloc t"
    using False by (simp add: t'_def remove_ptab_def peek_def poke_def Let_def decref_frame)
  have lo_le: "unat lo \<le> unat v"
    using v(1) by (simp add: word_le_nat_alt)
  have outside: "PDX w \<noteq> PDX v" if w: "\<not> (lo \<le> w \<and> w < hi)" for w
  proof
    assume "PDX w = PDX v"
    from same_chunk[OF this v(3)] have "unat v \<le> unat w" "unat w < unat v + 4194304"
      by simp_all
    with v(2) lo_le have "unat lo \<le> unat w" "unat w < unat hi"
      by linarith+
    then have "lo \<le> w \<and> w < hi"
      by (simp add: word_le_nat_alt word_less_nat_alt)
    with w show False by simp
  qed
  have "remove_inv s pdir lo hi t'"
    unfolding remove_inv_def
  proof (intro conjI allI impI)
    show "nalloc t' = nalloc s"
      using d(1) na by simp
    show "mem t' pdir i = mem s pdir i \<or> mem t' pdir i = PTE_ZERO" for i
      using d(2)[of i] by (simp add: m)
    show "mem t' pdir (PDX w) = mem s pdir (PDX w)" if "\<not> (lo \<le> w \<and> w < hi)" for w
      using d(3)[OF that] outside[OF that] by (simp add: m)
    show "mem t' (PGADDR (mem s pdir (PDX w))) (PTX w) =
          mem s (PGADDR (mem s pdir (PDX w))) (PTX w)"
      if h: "\<not> (lo \<le> w \<and> w < hi) \<and> VM_USERLO \<le> w \<and> w < VM_USERHI \<and>
          mem s pdir (PDX w) \<noteq> PTE_ZERO" for w
    proof -
      from h have w: "\<not> (lo \<le> w \<and> w < hi)" "VM_USERLO \<le> w" "w < VM_USERHI"
        "mem s pdir (PDX w) \<noteq> PTE_ZERO"
        by simp_all
      have "PGADDR (mem s pdir (PDX w)) \<noteq> pdir"
        by (rule wf_pdirD1[OF wf window_index[OF w(2,3)] w(4)])
      with d(4)[OF w] show ?thesis
        by (simp add: m)
    qed
  qed
  then show ?thesis by (simp add: t'_def)
qed


lemma PTOFF_imp_PGOFF: "PTOFF v = 0 \<Longrightarrow> PGOFF v = 0"
  by (auto simp: PTOFF_def PGOFF_def mask12 mask22 u32_eq_iff bit_simps)

lemma tail_loop:
  assumes wf: "wf_pdir s pdir" and hi: "PGOFF hi = 0" "hi \<le> VM_USERHI"
  shows "remove_inv s pdir lo hi t \<Longrightarrow> PGOFF va = 0 \<Longrightarrow> va \<le> hi \<Longrightarrow> VM_USERLO \<le> va \<Longrightarrow>
         lo \<le> va \<Longrightarrow>
         \<exists>t'. remove_tail t pdir va hi = Some (Inr t') \<and> remove_inv s pdir lo hi t'"
proof (induction "unat hi - unat va" arbitrary: t va rule: less_induct)
  case less
  show ?case
  proof (cases "va < hi")
    case False
    then show ?thesis
      using less.prems(1) by (simp add: tail_done)
  next
    case True
    then have win: "va < VM_USERHI"
      using hi(2) by simp
    from remove_pte_inv[OF wf less.prems(1) less.prems(5) True less.prems(2) hi(1) less.prems(4) win]
    obtain t1 where t1: "remove_pte t pdir va = Inr t1" "remove_inv s pdir lo hi t1"
      by blast
    note np = next_page[OF less.prems(2) hi(1) True]
    have m: "unat hi - unat (va + PAGESIZE) < unat hi - unat va"
      using np(1) True by (simp add: word_less_nat_alt)
    have lo': "VM_USERLO \<le> va + PAGESIZE" "lo \<le> va + PAGESIZE"
      using np(4) less.prems(4,5) by simp_all
    from less.hyps[OF m t1(2) np(3) np(2) lo']
    obtain t' where "remove_tail t1 pdir (va + PAGESIZE) hi = Some (Inr t')"
      "remove_inv s pdir lo hi t'"
      by blast
    then show ?thesis
      using True t1(1) by (subst remove_tail.simps) simp
  qed
qed

lemma head_loop:
  assumes wf: "wf_pdir s pdir" and hi: "PGOFF hi = 0" "hi \<le> VM_USERHI"
  shows "remove_inv s pdir lo hi t \<Longrightarrow> PGOFF va = 0 \<Longrightarrow> va \<le> hi \<Longrightarrow> VM_USERLO \<le> va \<Longrightarrow>
         lo \<le> va \<Longrightarrow>
         \<exists>t' va1. remove_head t pdir va hi = Some (Inr (t', va1)) \<and> remove_inv s pdir lo hi t' \<and>
                  PGOFF va1 = 0 \<and> va1 \<le> hi \<and> VM_USERLO \<le> va1 \<and> lo \<le> va1 \<and>
                  (PTOFF va1 = 0 \<or> va1 = hi)"
proof (induction "unat hi - unat va" arbitrary: t va rule: less_induct)
  case less
  have vaHI: "va \<le> VM_USERHI"
    using less.prems(3) hi(2) by simp
  show ?case
  proof (cases "va < ROUNDUP va PTSIZE \<and> va < hi")
    case False
    then have ex: "remove_head t pdir va hi = Some (Inr (t, va))"
      by (subst remove_head.simps) auto
    have "PTOFF va = 0 \<or> va = hi"
      using False below_ROUNDUP[OF vaHI] less.prems(3) by auto
    then show ?thesis
      using ex less.prems by simp
  next
    case True
    then have lt: "va < hi" by simp
    then have win: "va < VM_USERHI"
      using hi(2) by simp
    from remove_pte_inv[OF wf less.prems(1) less.prems(5) lt less.prems(2) hi(1) less.prems(4) win]
    obtain t1 where t1: "remove_pte t pdir va = Inr t1" "remove_inv s pdir lo hi t1"
      by blast
    note np = next_page[OF less.prems(2) hi(1) lt]
    have m: "unat hi - unat (va + PAGESIZE) < unat hi - unat va"
      using np(1) lt by (simp add: word_less_nat_alt)
    have lo': "VM_USERLO \<le> va + PAGESIZE" "lo \<le> va + PAGESIZE"
      using np(4) less.prems(4,5) by simp_all
    from less.hyps[OF m t1(2) np(3) np(2) lo']
    obtain t' va1 where r: "remove_head t1 pdir (va + PAGESIZE) hi = Some (Inr (t', va1))"
      "remove_inv s pdir lo hi t'" "PGOFF va1 = 0" "va1 \<le> hi" "VM_USERLO \<le> va1" "lo \<le> va1"
      "PTOFF va1 = 0 \<or> va1 = hi"
      by blast
    have "remove_head t pdir va hi = Some (Inr (t', va1))"
      using True t1(1) r(1) by (subst remove_head.simps) simp
    with r show ?thesis by simp
  qed
qed

lemma bulk_loop:
  assumes wf: "wf_pdir s pdir" and hi: "hi \<le> VM_USERHI"
  shows "remove_inv s pdir lo hi t \<Longrightarrow> PGOFF va = 0 \<Longrightarrow> va \<le> hi \<Longrightarrow> VM_USERLO \<le> va \<Longrightarrow>
         lo \<le> va \<Longrightarrow> PTOFF va = 0 \<or> va = hi \<Longrightarrow>
         \<exists>t' va2. remove_bulk t pdir va hi = Some (t', va2) \<and> remove_inv s pdir lo hi t' \<and>
                  PGOFF va2 = 0 \<and> va2 \<le> hi \<and> VM_USERLO \<le> va2 \<and> lo \<le> va2"
proof (induction "unat hi - unat va" arbitrary: t va rule: less_induct)
  case less
  have vaHI: "va \<le> VM_USERHI"
    using less.prems(3) hi by simp
  show ?case
  proof (cases "va + PTSIZE \<le> ROUNDDOWN hi PTSIZE \<and> hi - va \<ge> PTSIZE")
    case False
    then have "remove_bulk t pdir va hi = Some (t, va)"
      by (subst remove_bulk.simps) auto
    then show ?thesis
      using less.prems by simp
  next
    case True
    have "unat (va + PTSIZE) \<le> unat (ROUNDDOWN hi PTSIZE)"
      using True by (simp add: word_le_nat_alt)
    then have chunk: "unat va + 4194304 \<le> unat hi"
      using unat_add_PTSIZE[OF vaHI] by (simp add: unat_ROUNDDOWN)
    then have ne: "va \<noteq> hi" by auto
    with less.prems(6) have al: "PTOFF va = 0" by simp
    have t1: "remove_inv s pdir lo hi (remove_ptab t pdir va)"
      by (rule remove_ptab_inv[OF wf less.prems(1) less.prems(5) chunk al])
    have u: "unat (va + PTSIZE) = unat va + 4194304"
      by (rule unat_add_PTSIZE[OF vaHI])
    have m: "unat hi - unat (va + PTSIZE) < unat hi - unat va"
      using u chunk by simp
    have al': "PTOFF (va + PTSIZE) = 0"
      using al u by (simp add: PTOFF_iff)
    have le': "va + PTSIZE \<le> hi" "va \<le> va + PTSIZE"
      using u chunk by (simp_all add: word_le_nat_alt)
    have lo': "VM_USERLO \<le> va + PTSIZE" "lo \<le> va + PTSIZE"
      using le'(2) less.prems(4,5) by simp_all
    from less.hyps[OF m t1 PTOFF_imp_PGOFF[OF al'] le'(1) lo' disjI1[OF al']]
    obtain t' va2 where r: "remove_bulk (remove_ptab t pdir va) pdir (va + PTSIZE) hi = Some (t', va2)"
      "remove_inv s pdir lo hi t'" "PGOFF va2 = 0" "va2 \<le> hi" "VM_USERLO \<le> va2" "lo \<le> va2"
      by blast
    have "remove_bulk t pdir va hi = Some (t', va2)"
      using True r(1) by (subst remove_bulk.simps) simp
    with r show ?thesis by simp
  qed
qed


text \<open>
  Claim C10. For a page-aligned \<open>va\<close> and \<open>sz\<close> inside the user window, on a
  directory whose user page tables are not the directory itself and are not shared
  between two PDEs, \<open>pmap_remove\<close> returns, and the state \<open>s'\<close> it returns is such
  that: no frame was allocated (\<open>nalloc\<close>, which counts the successful calls of
  \<open>mem_alloc\<close>, is as before: the walker of the head and tail spans runs in create mode
  only under a PDE that is not \<open>PTE_ZERO\<close>, so it never allocates); for every address
  \<open>v\<close> outside \<open>[va, va + sz)\<close> the PDE of \<open>v\<close> is as before, and so is the PTE of
  \<open>v\<close> when \<open>v\<close> is in the user window and has a page table; and every PDE that was
  \<open>PTE_ZERO\<close>, inside the range or not, is still \<open>PTE_ZERO\<close>.
\<close>
theorem remove_frame:
  assumes "PGOFF sz = 0" "VM_USERLO \<le> va" "va < VM_USERHI" "sz \<le> VM_USERHI - va" "PGOFF va = 0"
    and wf: "wf_pdir s pdir"
  shows "\<exists>s'. pmap_remove s pdir va sz = Inr s' \<and> nalloc s' = nalloc s \<and>
           (\<forall>v. \<not> (va \<le> v \<and> v < va + sz) \<longrightarrow> mem s' pdir (PDX v) = mem s pdir (PDX v)) \<and>
           (\<forall>v. \<not> (va \<le> v \<and> v < va + sz) \<and> VM_USERLO \<le> v \<and> v < VM_USERHI \<and>
                mem s pdir (PDX v) \<noteq> PTE_ZERO \<longrightarrow>
                mem s' (PGADDR (mem s pdir (PDX v))) (PTX v) =
                mem s (PGADDR (mem s pdir (PDX v))) (PTX v)) \<and>
           (\<forall>i. mem s pdir i = PTE_ZERO \<longrightarrow> mem s' pdir i = PTE_ZERO)"
proof -
  let ?hi = "va + sz"
  note ra = remove_asserts[OF assms(1-5)]
  have i0: "remove_inv s pdir va ?hi s"
    by (rule remove_inv_refl)
  from head_loop[OF wf ra(3) ra(2) i0 assms(5) ra(4) assms(2) order_refl]
  obtain t1 va1 where h: "remove_head s pdir va ?hi = Some (Inr (t1, va1))"
    "remove_inv s pdir va ?hi t1" "PGOFF va1 = 0" "va1 \<le> ?hi" "VM_USERLO \<le> va1" "va \<le> va1"
    "PTOFF va1 = 0 \<or> va1 = ?hi"
    by blast
  from bulk_loop[OF wf ra(2) h(2) h(3) h(4) h(5) h(6) h(7)]
  obtain t2 va2 where b: "remove_bulk t1 pdir va1 ?hi = Some (t2, va2)"
    "remove_inv s pdir va ?hi t2" "PGOFF va2 = 0" "va2 \<le> ?hi" "VM_USERLO \<le> va2" "va \<le> va2"
    by blast
  from tail_loop[OF wf ra(3) ra(2) b(2) b(3) b(4) b(5) b(6)]
  obtain t3 where t: "remove_tail t2 pdir va2 ?hi = Some (Inr t3)" "remove_inv s pdir va ?hi t3"
    by blast
  have run: "pmap_remove s pdir va sz = Inr t3"
    using assms(1-5) by (simp add: pmap_remove_def Let_def h(1) b(1) t(1))
  note d = remove_invD[OF t(2)]
  show ?thesis
  proof (intro exI[of _ t3] conjI allI impI)
    show "pmap_remove s pdir va sz = Inr t3" by (rule run)
    show "nalloc t3 = nalloc s" by (rule d(1))
    show "mem t3 pdir (PDX v) = mem s pdir (PDX v)" if "\<not> (va \<le> v \<and> v < va + sz)" for v
      by (rule d(3)[OF that])
    show "mem t3 (PGADDR (mem s pdir (PDX v))) (PTX v) = mem s (PGADDR (mem s pdir (PDX v))) (PTX v)"
      if "\<not> (va \<le> v \<and> v < va + sz) \<and> VM_USERLO \<le> v \<and> v < VM_USERHI \<and>
          mem s pdir (PDX v) \<noteq> PTE_ZERO" for v
      using that by (intro d(4)) simp_all
    show "mem t3 pdir i = PTE_ZERO" if "mem s pdir i = PTE_ZERO" for i
      using d(2)[of i] that by auto
  qed
qed


text \<open>The example directory: its only user page table is \<open>ex_ptab\<close>, behind PDE 256.\<close>
lemma bootpdir_user:
  assumes "256 \<le> i" "i < 960"
  shows "pmap_bootpdir i = PTE_ZERO"
proof -
  have "unat (of_nat i * PTSIZE :: u32) = (i mod 4294967296 * 4194304) mod 4294967296"
    by (simp add: unat_word_ariths unat_of_nat PTSIZE_def)
  also have "\<dots> = i * 4194304"
    using assms by simp
  finally have "unat (of_nat i * PTSIZE :: u32) = i * 4194304" .
  then have "VM_USERLO \<le> of_nat i * PTSIZE \<and> of_nat i * PTSIZE < VM_USERHI"
    using assms by (simp add: word_le_nat_alt word_less_nat_alt HI_nat LO_nat)
  then show ?thesis
    by (simp add: pmap_bootpdir_def Let_def)
qed

lemma ex_mapped_wf: "wf_pdir (ex_mapped pte rc fl) ex_pdir"
proof -
  have m: "mem (ex_mapped pte rc fl) ex_pdir i =
           (if i = 256 then ex_ptab OR PTE_A OR PTE_P OR PTE_W OR PTE_U else pmap_bootpdir i)" for i
    by (simp add: ex_mapped_def ex_defs)
  have z: "PDX VM_USERLO \<le> i \<and> i < PDX VM_USERHI \<Longrightarrow>
           mem (ex_mapped pte rc fl) ex_pdir i \<noteq> PTE_ZERO \<Longrightarrow> i = 256" for i
    using bootpdir_user[of i] by (auto simp: m PDX_nat HI_nat LO_nat split: if_splits)
  have t: "PGADDR (mem (ex_mapped pte rc fl) ex_pdir 256) \<noteq> ex_pdir"
    by (simp add: m) (simp add: ex_defs consts_defs)
  show ?thesis
    unfolding wf_pdir_def using z t by (metis (full_types))
qed



text \<open>Removing the second page of the example directory: the mapping of the first page,
  its PDE and the empty PDE 257 stay, and nothing is allocated.\<close>
theorem remove_frame_witness:
  "PGOFF 0x1000 = 0 \<and> VM_USERLO \<le> 0x40001000 \<and> 0x40001000 < VM_USERHI \<and>
   0x1000 \<le> VM_USERHI - 0x40001000 \<and> PGOFF 0x40001000 = 0 \<and>
   wf_pdir (ex_mapped 0x00300005 1 []) ex_pdir \<and>
   (\<exists>s'. pmap_remove (ex_mapped 0x00300005 1 []) ex_pdir 0x40001000 0x1000 = Inr s' \<and>
         nalloc s' = 0 \<and> mem s' ex_pdir 256 = 0x00201027 \<and>
         mem s' ex_ptab 0 = 0x00300005 \<and> mem s' ex_pdir 257 = PTE_ZERO)"
proof -
  let ?s = "ex_mapped 0x00300005 1 []"
  have pre: "PGOFF 0x1000 = 0" "VM_USERLO \<le> 0x40001000" "0x40001000 < VM_USERHI"
    "0x1000 \<le> VM_USERHI - 0x40001000" "PGOFF 0x40001000 = 0"
    by (simp_all add: consts_defs)
  have wf: "wf_pdir ?s ex_pdir"
    by (rule ex_mapped_wf)
  have pde: "mem ?s ex_pdir 256 = 0x00201027" "mem ?s ex_pdir 257 = PTE_ZERO"
    "mem ?s ex_ptab 0 = 0x00300005" "nalloc ?s = 0"
    by (simp_all add: ex_mapped_def ex_defs consts_defs bootpdir_user)
  have out: "\<not> ((0x40001000::u32) \<le> 0x40000000 \<and> (0x40000000::u32) < 0x40001000 + 0x1000)"
    by simp
  have inw: "VM_USERLO \<le> 0x40000000" "0x40000000 < VM_USERHI"
    by (simp_all add: consts_defs)
  have nz: "mem ?s ex_pdir (PDX 0x40000000) \<noteq> PTE_ZERO"
    by (simp add: PDX_ex pde) (simp add: consts_defs)
  have tab: "PGADDR 0x00201027 = ex_ptab"
    by (simp add: consts_defs ex_defs)
  from remove_frame [of "0x1000" "0x40001000" ?s ex_pdir, OF pre wf]
  obtain s' where r: "pmap_remove ?s ex_pdir 0x40001000 0x1000 = Inr s'" "nalloc s' = nalloc ?s"
    and a: "\<And>v. \<not> (0x40001000 \<le> v \<and> v < 0x40001000 + 0x1000) \<Longrightarrow>
               mem s' ex_pdir (PDX v) = mem ?s ex_pdir (PDX v)"
    and b: "\<And>v. \<not> (0x40001000 \<le> v \<and> v < 0x40001000 + 0x1000) \<Longrightarrow> VM_USERLO \<le> v \<Longrightarrow>
               v < VM_USERHI \<Longrightarrow> mem ?s ex_pdir (PDX v) \<noteq> PTE_ZERO \<Longrightarrow>
               mem s' (PGADDR (mem ?s ex_pdir (PDX v))) (PTX v) =
               mem ?s (PGADDR (mem ?s ex_pdir (PDX v))) (PTX v)"
    and c: "\<And>i. mem ?s ex_pdir i = PTE_ZERO \<Longrightarrow> mem s' ex_pdir i = PTE_ZERO"
    by blast
  have "mem s' ex_pdir 256 = 0x00201027"
    using a[OF out] by (simp add: PDX_ex pde)
  moreover have "mem s' ex_ptab 0 = 0x00300005"
    using b[OF out inw nz] by (simp add: tab PDX_ex pde)
  moreover have "mem s' ex_pdir 257 = PTE_ZERO"
    by (rule c[OF pde(2)])
  ultimately show ?thesis
    using pre wf r pde(4) by simp
qed

end
